theory Spec2Isabelle
  imports Main "HOL-Library.Sublist" "HOL-Library.Code_Target_Nat"
begin

section \<open>Strings\<close>

text \<open>
  A Python string is the list of its Unicode code points. String literals of the source
  that are plain ASCII are written \<open>ascii ''...''\<close>; the few other characters of the source
  (the bullet U+2022, the degree sign U+00B0, the seedling U+1F331) are given by their
  code point. The test \<open>w in s\<close> on two strings is \<^const>\<open>sublist\<close>: \<open>w\<close> occurs
  contiguously in \<open>s\<close>.
\<close>

type_synonym codepoint = nat

type_synonym ustring = "codepoint list"

definition ascii :: "string \<Rightarrow> ustring" where
  "ascii s = map of_char s"

text \<open>
  The whitespace characters of Python: the code points that \<open>str.isspace\<close>, \<open>str.strip\<close>,
  \<open>str.split\<close> and the class \<open>\s\<close> of a \<open>str\<close> pattern accept. These are, besides the
  ASCII ones, NEL, the no-break space, the Ogham space mark, the spaces U+2000 to U+200A,
  the line and paragraph separators, the narrow no-break space, the medium mathematical
  space and the ideographic space.
\<close>

definition is_space :: "codepoint \<Rightarrow> bool" where
  "is_space c =
     ((9 \<le> c \<and> c \<le> 13) \<or> (28 \<le> c \<and> c \<le> 32) \<or> c = 0x85 \<or> c = 0xA0 \<or> c = 0x1680
      \<or> (0x2000 \<le> c \<and> c \<le> 0x200A) \<or> c = 0x2028 \<or> c = 0x2029 \<or> c = 0x202F
      \<or> c = 0x205F \<or> c = 0x3000)"

text \<open>
  \<open>str.lower\<close>. On a string of ASCII characters it maps the letters A-Z to a-z and leaves
  the rest alone. On any other string the result comes from the case tables of the
  Unicode database of the Python runtime, which are no part of the repository: it is the
  parameter \<open>unicode_lower\<close>, carried by every function that lowercases.
\<close>

definition lower_ascii_char :: "codepoint \<Rightarrow> codepoint" where
  "lower_ascii_char c = (if 65 \<le> c \<and> c \<le> 90 then c + 32 else c)"

definition lower :: "(ustring \<Rightarrow> ustring) \<Rightarrow> ustring \<Rightarrow> ustring" where
  "lower unicode_lower s =
     (if list_all (\<lambda>c. c < 128) s then map lower_ascii_char s else unicode_lower s)"

text \<open>\<open>re.sub(r'\s+', ' ', text)\<close>: every maximal run of whitespace becomes one space.\<close>

function sub_ws :: "ustring \<Rightarrow> ustring" where
  "sub_ws [] = []"
| "sub_ws (c # cs) =
     (if is_space c then 32 # sub_ws (dropWhile is_space cs) else c # sub_ws cs)"
  by pat_completeness auto
termination
  by (relation "measure length") (auto simp: less_Suc_eq_le length_dropWhile_le)

text \<open>\<open>str.strip()\<close>: whitespace removed at both ends.\<close>

definition strip :: "ustring \<Rightarrow> ustring" where
  "strip s = rev (dropWhile is_space (rev (dropWhile is_space s)))"

text \<open>\<open>str.split()\<close> without argument: the maximal runs of non-whitespace characters.\<close>

function split :: "ustring \<Rightarrow> ustring list" where
  "split [] = []"
| "split (c # cs) =
     (if is_space c then split cs
      else (c # takeWhile (\<lambda>x. \<not> is_space x) cs) # split (dropWhile (\<lambda>x. \<not> is_space x) cs))"
  by pat_completeness auto
termination
  by (relation "measure length") (auto simp: less_Suc_eq_le length_dropWhile_le)

section \<open>utils.py\<close>

text \<open>
  \<open>clean_text\<close>; the argument is \<open>None\<close> for Python's \<open>None\<close>. Both \<open>None\<close> and the empty
  string are falsy and return the empty string at once.
\<close>

fun clean_text :: "(ustring \<Rightarrow> ustring) \<Rightarrow> ustring option \<Rightarrow> ustring" where
  "clean_text unicode_lower None = []"
| "clean_text unicode_lower (Some text) =
     (if text = [] then [] else strip (sub_ws (lower unicode_lower text)))"

section \<open>JSON values\<close>

text \<open>
  The values that \<open>json.load\<close> and \<open>response.json()\<close> produce, and the literals of the
  built-in dataset. A dictionary is the list of its items in insertion order, with
  distinct keys; numbers are kept as integers, which is all the code below can tell
  apart (a number is only tested for being zero).
\<close>

datatype json = JNull | JBool bool | JNum int | JStr ustring | JList "json list"
  | JDict "(ustring \<times> json) list"

datatype exn = AttributeError | TypeError | KeyError | IndexError | RequestException
  | BackendException

text \<open>Python truth value of a JSON value (\<open>if x\<close>, \<open>not x\<close>).\<close>

fun truthy :: "json \<Rightarrow> bool" where
  "truthy JNull = False"
| "truthy (JBool b) = b"
| "truthy (JNum n) = (n \<noteq> 0)"
| "truthy (JStr s) = (s \<noteq> [])"
| "truthy (JList xs) = (xs \<noteq> [])"
| "truthy (JDict d) = (d \<noteq> [])"

text \<open>\<open>x.items()\<close>: only a dictionary has the method.\<close>

fun items :: "json \<Rightarrow> exn + (ustring \<times> json) list" where
  "items (JDict d) = Inr d"
| "items _ = Inl AttributeError"

section \<open>knowledge\_base.py\<close>

definition bullet :: ustring where
  "bullet = [0x2022]"

definition nl :: ustring where
  "nl = [10]"

definition get_default_crops_data :: json where
  "get_default_crops_data = JDict
    [(ascii ''rice'', JDict
       [(ascii ''name'', JStr (ascii ''Rice'')),
        (ascii ''description'', JStr (ascii ''Rice is a staple cereal grain and one of the most important crops worldwide.'')),
        (ascii ''growing_tips'', JStr (bullet @ ascii '' Plant in flooded fields'' @ nl @ bullet @ ascii '' Requires warm climate'' @ nl
            @ bullet @ ascii '' 120-150 days to maturity'' @ nl @ bullet @ ascii '' pH 5.5-6.5 preferred'')),
        (ascii ''season'', JStr (ascii ''Monsoon season (June-October)'')),
        (ascii ''pests'', JList [JStr (ascii ''Brown planthopper''), JStr (ascii ''Rice stem borer''), JStr (ascii ''Blast disease'')])]),
     (ascii ''wheat'', JDict
       [(ascii ''name'', JStr (ascii ''Wheat'')),
        (ascii ''description'', JStr (ascii ''Wheat is a cereal grain that is a worldwide staple food.'')),
        (ascii ''growing_tips'', JStr (bullet @ ascii '' Cool, dry climate preferred'' @ nl @ bullet @ ascii '' Well-drained soil'' @ nl
            @ bullet @ ascii '' 100-130 days to harvest'' @ nl @ bullet @ ascii '' pH 6.0-7.0 optimal'')),
        (ascii ''season'', JStr (ascii ''Winter season (November-April)'')),
        (ascii ''pests'', JList [JStr (ascii ''Aphids''), JStr (ascii ''Rust diseases''), JStr (ascii ''Hessian fly'')])]),
     (ascii ''tomato'', JDict
       [(ascii ''name'', JStr (ascii ''Tomato'')),
        (ascii ''description'', JStr (ascii ''Tomatoes are versatile fruits used in cooking worldwide.'')),
        (ascii ''growing_tips'', JStr (bullet @ ascii '' Warm weather crop'' @ nl @ bullet @ ascii '' Rich, well-drained soil'' @ nl
            @ bullet @ ascii '' Regular watering'' @ nl @ bullet @ ascii '' Support with stakes'')),
        (ascii ''season'', JStr (ascii ''Summer season (March-June)'')),
        (ascii ''pests'', JList [JStr (ascii ''Tomato hornworm''), JStr (ascii ''Aphids''), JStr (ascii ''Blight diseases'')])]),
     (ascii ''potato'', JDict
       [(ascii ''name'', JStr (ascii ''Potato'')),
        (ascii ''description'', JStr (ascii ''Potatoes are underground tubers that are a major food crop.'')),
        (ascii ''growing_tips'', JStr (bullet @ ascii '' Cool weather preferred'' @ nl @ bullet @ ascii '' Loose, fertile soil'' @ nl
            @ bullet @ ascii '' Hill up plants regularly'' @ nl @ bullet @ ascii '' Consistent moisture'')),
        (ascii ''season'', JStr (ascii ''Winter season (October-February)'')),
        (ascii ''pests'', JList [JStr (ascii ''Colorado potato beetle''), JStr (ascii ''Late blight''), JStr (ascii ''Aphids'')])]),
     (ascii ''corn'', JDict
       [(ascii ''name'', JStr (ascii ''Corn (Maize)'')),
        (ascii ''description'', JStr (ascii ''Corn is a cereal grain that serves as food for humans and livestock.'')),
        (ascii ''growing_tips'', JStr (bullet @ ascii '' Warm season crop'' @ nl @ bullet @ ascii '' Full sun exposure'' @ nl
            @ bullet @ ascii '' Rich, well-drained soil'' @ nl @ bullet @ ascii '' Adequate spacing for pollination'')),
        (ascii ''season'', JStr (ascii ''Summer season (April-August)'')),
        (ascii ''pests'', JList [JStr (ascii ''Corn borer''), JStr (ascii ''Armyworm''), JStr (ascii ''Corn smut'')])])]"

definition get_default_knowledge :: "(ustring \<times> json) list" where
  "get_default_knowledge =
    [(ascii ''crops'', get_default_crops_data),
     (ascii ''pests'', JDict
       [(ascii ''aphids'', JDict
          [(ascii ''name'', JStr (ascii ''Aphids'')),
           (ascii ''description'', JStr (ascii ''Small, soft-bodied insects that feed on plant sap.'')),
           (ascii ''treatment'', JStr (ascii ''Use neem oil spray, introduce ladybugs, or use insecticidal soap.'')),
           (ascii ''prevention'', JStr (ascii ''Regular inspection, avoid over-fertilization''))]),
        (ascii ''caterpillars'', JDict
          [(ascii ''name'', JStr (ascii ''Caterpillars'')),
           (ascii ''description'', JStr (ascii ''Larvae of moths and butterflies that eat plant leaves.'')),
           (ascii ''treatment'', JStr (ascii ''Hand picking, Bt spray, or appropriate insecticides.'')),
           (ascii ''prevention'', JStr (ascii ''Row covers, companion planting''))])]),
     (ascii ''soil'', JDict
       [(ascii ''ph_testing'', JDict
          [(ascii ''description'', JStr (ascii ''Soil pH affects nutrient availability to plants.'')),
           (ascii ''recommendations'', JStr (ascii ''Test pH annually. Most crops prefer pH 6.0-7.0. Use lime to raise pH, sulfur to lower ul it.''))]),
        (ascii ''composting'', JDict
          [(ascii ''description'', JStr (ascii ''Composting creates rich organic matter for soil improvement.'')),
           (ascii ''recommendations'', JStr (ascii ''Mix green and brown materials, maintain moisture, turn regularly for aeration.''))])]),
     (ascii ''weather'', JDict
       [(ascii ''seasonal_planning'', JDict
          [(ascii ''description'', JStr (ascii ''Planning crops according to seasonal weather patterns.'')),
           (ascii ''recommendations'', JStr (ascii ''Plant warm-season crops after last frost, cool-season crops in fall/winter.''))])]),
     (ascii ''general'', JDict
       [(ascii ''organic_farming'', JDict
          [(ascii ''description'', JStr (ascii ''Farming without synthetic chemicals, focusing on natural methods.'')),
           (ascii ''recommendations'', JStr (ascii ''Use compost, crop rotation, biological pest control, and cover crops.''))])])]"

text \<open>
  What \<open>_load_knowledge\<close> finds at \<open>data/crops_data.json\<close>: no file (\<open>os.path.exists\<close> is
  false), a file whose opening or parsing raises, or a file that parses to a JSON value.
\<close>

datatype crops_file = Absent | Unreadable | Parsed json

text \<open>
  \<open>_load_knowledge\<close>. The dictionary starts with the five topics, each empty; only the
  \<open>except\<close> branch replaces it by \<open>_get_default_knowledge()\<close>.
\<close>

fun load_knowledge :: "crops_file \<Rightarrow> (ustring \<times> json) list" where
  "load_knowledge (Parsed j) =
     [(ascii ''crops'', j), (ascii ''pests'', JDict []), (ascii ''soil'', JDict []), (ascii ''weather'', JDict []),
      (ascii ''general'', JDict [])]"
| "load_knowledge Absent =
     [(ascii ''crops'', get_default_crops_data), (ascii ''pests'', JDict []), (ascii ''soil'', JDict []),
      (ascii ''weather'', JDict []), (ascii ''general'', JDict [])]"
| "load_knowledge Unreadable = get_default_knowledge"

text \<open>\<open>any(word in s.lower() for word in query.split())\<close>\<close>

definition any_word_in :: "(ustring \<Rightarrow> ustring) \<Rightarrow> ustring \<Rightarrow> ustring \<Rightarrow> bool" where
  "any_word_in ul query s = list_ex (\<lambda>word. sublist word (lower ul s)) (split query)"

text \<open>\<open>_calculate_relevance\<close>\<close>

fun content_match :: "(ustring \<Rightarrow> ustring) \<Rightarrow> ustring \<Rightarrow> ustring \<times> json \<Rightarrow> bool" where
  "content_match ul query (field, JStr content) = any_word_in ul query content"
| "content_match ul query (field, _) = False"

fun calculate_relevance :: "(ustring \<Rightarrow> ustring) \<Rightarrow> ustring \<Rightarrow> ustring \<Rightarrow> json \<Rightarrow> nat" where
  "calculate_relevance ul query key (JDict d) =
     (if any_word_in ul query key then 2 else 0) + length (filter (content_match ul query) d)"
| "calculate_relevance ul query key (JStr s) =
     (if any_word_in ul query key then 2 else 0) + (if any_word_in ul query s then 1 else 0)"
| "calculate_relevance ul query key _ = (if any_word_in ul query key then 2 else 0)"

text \<open>
  The loop of \<open>search\<close> over the items of a dictionary; the state is
  \<open>(best_match, highest_score)\<close>, initially \<open>(None, 0)\<close>.
\<close>

fun search_step :: "(ustring \<Rightarrow> ustring) \<Rightarrow> ustring \<Rightarrow> json option \<times> nat \<Rightarrow> ustring \<times> json \<Rightarrow> json option \<times> nat" where
  "search_step ul query (best_match, highest_score) (key, val) =
     (let score = calculate_relevance ul query key val
      in if score > highest_score then (Some val, score) else (best_match, highest_score))"

definition search_loop :: "(ustring \<Rightarrow> ustring) \<Rightarrow> ustring \<Rightarrow> json option \<times> nat \<Rightarrow> (ustring \<times> json) list \<Rightarrow> json option \<times> nat" where
  "search_loop ul query st its = foldl (search_step ul query) st its"

definition search_result :: "json option \<times> nat \<Rightarrow> json option" where
  "search_result st = (if snd st > 0 then fst st else None)"

text \<open>
  The loop over all topics: \<open>topic_data.items()\<close> raises at the first topic whose data is
  not a dictionary, and the state reached so far is lost.
\<close>

fun search_all :: "(ustring \<Rightarrow> ustring) \<Rightarrow> ustring \<Rightarrow> json option \<times> nat \<Rightarrow> (ustring \<times> json) list \<Rightarrow> exn + json option \<times> nat" where
  "search_all ul query st [] = Inr st"
| "search_all ul query st ((topic_name, topic_data) # rest) =
     (case items topic_data of
        Inl e \<Rightarrow> Inl e
      | Inr its \<Rightarrow> search_all ul query (search_loop ul query st its) rest)"

text \<open>
  \<open>search\<close>. The guard \<open>topic and topic in self.knowledge\<close> fails for \<open>None\<close>, for the
  empty string and for a name that is no key of the store.
\<close>

definition search :: "(ustring \<Rightarrow> ustring) \<Rightarrow> (ustring \<times> json) list \<Rightarrow> ustring \<Rightarrow> ustring option \<Rightarrow> exn + json option" where
  "search ul knowledge query topic =
     (let query_lower = lower ul query in
      case (case topic of None \<Rightarrow> None | Some t \<Rightarrow> if t = [] then None else map_of knowledge t) of
        Some topic_data \<Rightarrow>
          (case items topic_data of
             Inl e \<Rightarrow> Inl e
           | Inr its \<Rightarrow> Inr (search_result (search_loop ul query_lower (None, 0) its)))
      | None \<Rightarrow>
          (case search_all ul query_lower (None, 0) knowledge of
             Inl e \<Rightarrow> Inl e
           | Inr st \<Rightarrow> Inr (search_result st)))"

section \<open>response\_generator.py\<close>

text \<open>
  What a call of \<open>get_response\<close> depends on besides the message: the chat session made by
  \<open>__init__\<close> (\<open>None\<close> when the \<open>try\<close> block of \<open>__init__\<close> raised; otherwise the
  function from a prompt to the text of the reply, or to the exception that
  \<open>send_message\<close> or \<open>response.text\<close> raises), the knowledge store, the environment
  variable \<open>THINGSPEAK_WEATHER_CHANNEL\<close>, the outcome of \<open>requests.get(url).json()\<close>,
  the index drawn by \<open>random.choice\<close>, and what the Python runtime provides: the
  case tables behind \<open>str.lower\<close> and the library functions \<open>json.dumps(_, indent=2)\<close> and
  \<open>str\<close> on JSON values.
\<close>

record world =
  unicode_lower :: "ustring \<Rightarrow> ustring"
  chat :: "(ustring \<Rightarrow> exn + ustring) option"
  knowledge :: "(ustring \<times> json) list"
  thingspeak_channel :: "ustring option"
  http_get_json :: "ustring \<Rightarrow> exn + json"
  random_index :: nat
  json_dumps :: "json \<Rightarrow> ustring"
  py_str :: "json \<Rightarrow> ustring"

text \<open>The calls that leave the process, in the order they are made.\<close>

datatype event = HttpGet ustring | SendMessage ustring

record weather_info =
  temperature :: json
  humidity :: json
  pressure :: json

text \<open>The \<open>try\<close> block of \<open>__init__\<close>: on any exception \<open>self.chat\<close> stays \<open>None\<close>.\<close>

definition init_chat :: "exn + (ustring \<Rightarrow> exn + ustring) \<Rightarrow> (ustring \<Rightarrow> exn + ustring) option" where
  "init_chat r = (case r of Inl e \<Rightarrow> None | Inr session \<Rightarrow> Some session)"

definition greetings :: "ustring list" where
  "greetings =
    [ascii ''Hello! I'' @ [39] @ ascii ''m your Agriculture Assistant. How can I help you with farming today?'',
     ascii ''Hi there! I'' @ [39] @ ascii ''m here to help with all your agriculture and farming questions.'',
     ascii ''Welcome! Ask me anything about crops, cultivation, pests, or farming techniques.'']"

definition topic_patterns :: "(ustring \<times> ustring list) list" where
  "topic_patterns =
    [(ascii ''crops'', [ascii ''crop'', ascii ''crops'', ascii ''plant'', ascii ''plants'', ascii ''grow'', ascii ''cultivation'', ascii ''farming'']),
     (ascii ''pests'', [ascii ''pest'', ascii ''pests'', ascii ''insect'', ascii ''insects'', ascii ''bug'', ascii ''bugs'', ascii ''disease'', ascii ''diseases'']),
     (ascii ''soil'', [ascii ''soil'', ascii ''fertilizer'', ascii ''fertiliser'', ascii ''nutrients'', ascii ''ph'', ascii ''compost'']),
     (ascii ''weather'', [ascii ''weather'', ascii ''rain'', ascii ''season'', ascii ''climate'', ascii ''temperature'', ascii ''humidity'', ascii ''pressure'', ascii ''forecast'']),
     (ascii ''seeds'', [ascii ''seed'', ascii ''seeds'', ascii ''planting'', ascii ''sowing'', ascii ''germination'']),
     (ascii ''harvest'', [ascii ''harvest'', ascii ''harvesting'', ascii ''yield'', ascii ''production'', ascii ''storage''])]"

definition farewell :: ustring where
  "farewell = ascii ''Thank you for using Agriculture Assistant! Happy farming! '' @ [0x1F331]"

definition weather_apology :: ustring where
  "weather_apology = ascii ''Sorry, I couldn'' @ [39] @ ascii ''t fetch the live weather data from ThingSpeak right now. Please try again later.''"

definition offline_message :: ustring where
  "offline_message = ascii ''I'' @ [39] @ ascii ''m sorry, my AI capabilities are currently offline. Please try again later.''"

definition backend_apology :: ustring where
  "backend_apology = ascii ''I'' @ [39] @ ascii ''m sorry, I'' @ [39] @ ascii ''m having trouble connecting to my knowledge source right now. Please try again later.''"

definition is_greeting :: "ustring \<Rightarrow> bool" where
  "is_greeting text =
     list_ex (\<lambda>greeting. sublist greeting text)
       [ascii ''hello'', ascii ''hi'', ascii ''hey'', ascii ''good morning'', ascii ''good afternoon'', ascii ''good evening'']"

definition is_goodbye :: "ustring \<Rightarrow> bool" where
  "is_goodbye text =
     list_ex (\<lambda>goodbye. sublist goodbye text)
       [ascii ''bye'', ascii ''goodbye'', ascii ''see you'', ascii ''thanks'', ascii ''thank you'', ascii ''exit'', ascii ''quit'']"

text \<open>\<open>str.replace(old, new)\<close>: the occurrences of \<open>old\<close> found from left to right, not overlapping.\<close>

function replace :: "ustring \<Rightarrow> ustring \<Rightarrow> ustring \<Rightarrow> ustring" where
  "replace old new [] = (if old = [] then new else [])"
| "replace old new (c # cs) =
     (if old = [] then new @ c # replace old new cs
      else if prefix old (c # cs) then new @ replace old new (drop (length old) (c # cs))
      else c # replace old new cs)"
  by pat_completeness auto
termination
  by (relation "measure (\<lambda>(old, new, s). length s)") auto

definition fence_open :: ustring where
  "fence_open = (ascii ''```markdown'')"

text \<open>The post-processing of the reply in \<open>_get_ai_response\<close>.\<close>

definition strip_fence :: "ustring \<Rightarrow> ustring" where
  "strip_fence text =
     (if prefix fence_open text
      then replace (nl @ ascii ''```'') [] (replace (fence_open @ nl) [] text)
      else text)"

text \<open>\<open>_get_ai_response\<close>: the reply and the calls made.\<close>

definition get_ai_response :: "world \<Rightarrow> ustring \<Rightarrow> json option \<Rightarrow> ustring \<times> event list" where
  "get_ai_response w user_input context =
     (case chat w of
        None \<Rightarrow> (offline_message, [])
      | Some send_message \<Rightarrow>
          (let prompt = ascii ''User question: '' @ [39] @ user_input @ [39] @
                 (case context of
                    None \<Rightarrow> []
                  | Some c \<Rightarrow>
                      if truthy c
                      then nl @ nl @ ascii ''Here is some relevant context:'' @ nl @ json_dumps w c
                      else [])
           in case send_message prompt of
                Inl e \<Rightarrow> (backend_apology, [SendMessage prompt])
              | Inr text \<Rightarrow> (strip_fence text, [SendMessage prompt])))"

text \<open>\<open>max(items, key=...)\<close> on a sequence with first element \<open>best\<close>: a later element replaces the best one only when its key is strictly greater.\<close>

fun py_max :: "('a \<Rightarrow> nat) \<Rightarrow> 'a \<Rightarrow> 'a list \<Rightarrow> 'a" where
  "py_max key best [] = best"
| "py_max key best (y # ys) = py_max key (if key y > key best then y else best) ys"

definition keyword_count :: "ustring \<Rightarrow> ustring list \<Rightarrow> nat" where
  "keyword_count text keywords = length (filter (\<lambda>keyword. sublist keyword text) keywords)"

text \<open>\<open>_identify_topic\<close>\<close>

definition identify_topic :: "ustring \<Rightarrow> ustring option" where
  "identify_topic text =
     (let topic_scores =
            filter (\<lambda>(topic, score). score > 0)
              (map (\<lambda>(topic, keywords). (topic, keyword_count text keywords)) topic_patterns)
      in case topic_scores of
           [] \<Rightarrow> None
         | first # rest \<Rightarrow> Some (fst (py_max snd first rest)))"

text \<open>
  The body of the \<open>try\<close> in \<open>get_weather\<close> after \<open>response.json()\<close>, with the exceptions
  that \<open>.get\<close>, \<open>len\<close> and \<open>[0]\<close> raise on values of the wrong type.
\<close>

fun dict_get :: "json \<Rightarrow> ustring \<Rightarrow> json \<Rightarrow> exn + json" where
  "dict_get (JDict d) key dflt = Inr (case map_of d key of None \<Rightarrow> dflt | Some v \<Rightarrow> v)"
| "dict_get _ key dflt = Inl AttributeError"

fun py_len :: "json \<Rightarrow> exn + nat" where
  "py_len (JStr s) = Inr (length s)"
| "py_len (JList xs) = Inr (length xs)"
| "py_len (JDict d) = Inr (length d)"
| "py_len _ = Inl TypeError"

fun index0 :: "json \<Rightarrow> exn + json" where
  "index0 (JList (x # xs)) = Inr x"
| "index0 (JList []) = Inl IndexError"
| "index0 (JStr (c # cs)) = Inr (JStr [c])"
| "index0 (JStr []) = Inl IndexError"
| "index0 (JDict d) = Inl KeyError"
| "index0 _ = Inl TypeError"

definition read_feed :: "json \<Rightarrow> exn + weather_info option" where
  "read_feed data =
     (case dict_get data (ascii ''feeds'') JNull of
        Inl e \<Rightarrow> Inl e
      | Inr feeds \<Rightarrow>
          if \<not> truthy feeds then Inr None
          else (case py_len feeds of
             Inl e \<Rightarrow> Inl e
           | Inr n \<Rightarrow>
               if n = 0 then Inr None
               else (case index0 feeds of
                  Inl e \<Rightarrow> Inl e
                | Inr latest \<Rightarrow>
                    (case dict_get latest (ascii ''field1'') JNull of
                       Inl e \<Rightarrow> Inl e
                     | Inr t \<Rightarrow>
                         (case dict_get latest (ascii ''field2'') JNull of
                            Inl e \<Rightarrow> Inl e
                          | Inr h \<Rightarrow>
                              (case dict_get latest (ascii ''field3'') (JStr (ascii ''N/A'')) of
                                 Inl e \<Rightarrow> Inl e
                               | Inr p \<Rightarrow>
                                   Inr (Some \<lparr>temperature = t, humidity = h, pressure = p\<rparr>)))))))"

text \<open>\<open>get_weather\<close>: every exception of the \<open>try\<close> block is caught and gives \<open>None\<close>.\<close>

definition get_weather :: "world \<Rightarrow> weather_info option \<times> event list" where
  "get_weather w =
     (case thingspeak_channel w of
        None \<Rightarrow> (None, [])
      | Some channel_id \<Rightarrow>
          if channel_id = [] then (None, [])
          else (let url = ascii ''https://api.thingspeak.com/channels/'' @ channel_id @ ascii ''/feeds.json?results=1''
                in case http_get_json w url of
                     Inl e \<Rightarrow> (None, [HttpGet url])
                   | Inr data \<Rightarrow>
                       (case read_feed data of
                          Inl e \<Rightarrow> (None, [HttpGet url])
                        | Inr r \<Rightarrow> (r, [HttpGet url]))))"

text \<open>\<open>_process_agriculture_query\<close>: the search is not inside any \<open>try\<close>.\<close>

definition process_agriculture_query :: "world \<Rightarrow> ustring \<Rightarrow> (exn + ustring) \<times> event list" where
  "process_agriculture_query w user_input =
     (case (case identify_topic user_input of
              None \<Rightarrow> Inr None
            | Some topic \<Rightarrow> search (unicode_lower w) (knowledge w) user_input (Some topic)) of
        Inl e \<Rightarrow> (Inl e, [])
      | Inr context_info \<Rightarrow>
          (case get_ai_response w user_input context_info of (reply, evs) \<Rightarrow> (Inr reply, evs)))"

text \<open>The weather branch of \<open>get_response\<close> (the body of the second \<open>elif\<close>).\<close>

definition weather_reply :: "world \<Rightarrow> (exn + ustring) \<times> event list" where
  "weather_reply w =
     (case get_weather w of
        (Some info, evs) \<Rightarrow>
          (case get_ai_response w
                  (ascii ''User asked about weather. Current sensor readings are: '' @
                   ascii ''Temperature: '' @ py_str w (temperature info) @ [0xB0] @ ascii ''C, '' @
                   ascii ''Humidity: '' @ py_str w (humidity info) @ ascii ''%, '' @
                   ascii ''Pressure: '' @ py_str w (pressure info) @ ascii '' hPa. '' @
                   (ascii ''Explain what this means for farming.'')) None of
             (reply, evs') \<Rightarrow> (Inr reply, evs @ evs'))
      | (None, evs) \<Rightarrow> (Inr weather_apology, evs))"

text \<open>\<open>get_response\<close>: the reply, or the exception that leaves the method, and the calls made.\<close>

definition get_response :: "world \<Rightarrow> ustring \<Rightarrow> (exn + ustring) \<times> event list" where
  "get_response w user_input =
     (let user_input = clean_text (unicode_lower w) (Some (lower (unicode_lower w) user_input)) in
      if is_greeting user_input
      then (Inr (greetings ! (random_index w mod length greetings)), [])
      else if is_goodbye user_input then (Inr farewell, [])
      else (case map_of topic_patterns (ascii ''weather'') of
              None \<Rightarrow> (Inl KeyError, [])
            | Some words \<Rightarrow>
                if list_ex (\<lambda>word. sublist word user_input) words then weather_reply w
                else process_agriculture_query w user_input))"

section \<open>Specification predicates\<close>

text \<open>Whitespace of a string is well spaced: each whitespace character is a blank, and no two are adjacent.\<close>

fun ws_ok :: "ustring \<Rightarrow> bool" where
  "ws_ok [] = True"
| "ws_ok [c] = (\<not> is_space c \<or> c = 32)"
| "ws_ok (a # b # cs) = ((\<not> is_space a \<or> (a = 32 \<and> \<not> is_space b)) \<and> ws_ok (b # cs))"

text \<open>
  The two properties of \<open>str.lower\<close> that idempotence of the normalizer rests on: every
  character of a lowercased string is one that \<open>str.lower\<close> leaves alone, and a string of
  such characters is returned as it is.
\<close>

definition keeps_lowered :: "(ustring \<Rightarrow> ustring) \<Rightarrow> bool" where
  "keeps_lowered ul =
     ((\<forall>s. \<forall>c \<in> set (lower ul s). lower ul [c] = [c])
      \<and> (\<forall>s. (\<forall>c \<in> set s. lower ul [c] = [c]) \<longrightarrow> lower ul s = s))"

text \<open>The relevance score of one item \<open>(key, value)\<close> of a dictionary.\<close>

definition entry_score :: "(ustring \<Rightarrow> ustring) \<Rightarrow> ustring \<Rightarrow> ustring \<times> json \<Rightarrow> nat" where
  "entry_score ul query e = calculate_relevance ul query (fst e) (snd e)"

text \<open>
  \<open>x\<close> is the first element of \<open>xs\<close> with the greatest score: every element before it
  scores strictly less, and no element after it scores more.
\<close>

definition leads :: "('a \<Rightarrow> nat) \<Rightarrow> 'a list \<Rightarrow> 'a \<Rightarrow> bool" where
  "leads score xs x =
     (\<exists>pre post. xs = pre @ x # post
        \<and> (\<forall>y \<in> set pre. score y < score x) \<and> (\<forall>y \<in> set post. score y \<le> score x))"

text \<open>
  The result the specification asks of a scan: nothing when every score is zero,
  otherwise the first element with the greatest score.
\<close>

definition first_best :: "('a \<Rightarrow> nat) \<Rightarrow> 'a list \<Rightarrow> 'a option \<Rightarrow> bool" where
  "first_best score xs r =
     (if \<forall>x \<in> set xs. score x = 0 then r = None
      else \<exists>x. r = Some x \<and> leads score xs x)"

text \<open>The stores whose topics all hold a dictionary, and the items of all their topics in iteration order.\<close>

fun is_dict :: "json \<Rightarrow> bool" where
  "is_dict (JDict d) = True"
| "is_dict _ = False"

definition all_dicts :: "(ustring \<times> json) list \<Rightarrow> bool" where
  "all_dicts kb = list_all (\<lambda>(topic, topic_data). is_dict topic_data) kb"

fun entries_of :: "json \<Rightarrow> (ustring \<times> json) list" where
  "entries_of (JDict d) = d"
| "entries_of _ = []"

definition store_entries :: "(ustring \<times> json) list \<Rightarrow> (ustring \<times> json) list" where
  "store_entries kb = concat (map (\<lambda>(topic, topic_data). entries_of topic_data) kb)"

text \<open>
  A concrete environment to instantiate the theorems with: a backend that answers every
  prompt, no weather channel configured, no network, and case tables that hold the ASCII
  letters only.
\<close>

definition echo_backend :: "ustring \<Rightarrow> exn + ustring" where
  "echo_backend prompt = Inr (ascii ''ok'')"

definition no_network :: "ustring \<Rightarrow> exn + json" where
  "no_network url = Inl RequestException"

definition blank :: "json \<Rightarrow> ustring" where
  "blank j = []"

definition demo_lower :: "ustring \<Rightarrow> ustring" where
  "demo_lower s = map lower_ascii_char s"

definition demo_world :: "(ustring \<times> json) list \<Rightarrow> world" where
  "demo_world kb =
     \<lparr>unicode_lower = demo_lower, chat = Some echo_backend, knowledge = kb, thingspeak_channel = None,
      http_get_json = no_network, random_index = 0, json_dumps = blank, py_str = blank\<rparr>"

text \<open>A backend whose every call raises, and a feed that holds no reading.\<close>

definition failing_backend :: "ustring \<Rightarrow> exn + ustring" where
  "failing_backend prompt = Inl BackendException"

definition empty_feed :: "ustring \<Rightarrow> exn + json" where
  "empty_feed url = Inr (JDict [(ascii ''feeds'', JList [])])"

section \<open>Properties of the normalizer\<close>

lemma ascii_eq_iff [simp]: "ascii s = ascii t \<longleftrightarrow> s = t"
proof -
  have "inj (of_char :: char \<Rightarrow> nat)" by (rule injI) simp
  then have "inj (map (of_char :: char \<Rightarrow> nat))" by simp
  then show ?thesis unfolding ascii_def by (auto dest: injD)
qed

lemma ascii_Nil [simp]: "ascii s = [] \<longleftrightarrow> s = []"
  by (simp add: ascii_def)

lemma sub_ws_hd: "s \<noteq> [] \<Longrightarrow> \<not> is_space (hd s) \<Longrightarrow> sub_ws s \<noteq> [] \<and> hd (sub_ws s) = hd s"
  by (cases s) auto

lemma dropWhile_hd: "dropWhile P s \<noteq> [] \<Longrightarrow> \<not> P (hd (dropWhile P s))"
  by (simp add: hd_dropWhile)

lemma ws_ok_Cons: "ws_ok (a # s) = ((\<not> is_space a \<or> (a = 32 \<and> (s = [] \<or> \<not> is_space (hd s)))) \<and> ws_ok s)"
  by (cases s) auto

lemma ws_ok_sub_ws: "ws_ok (sub_ws s)"
proof (induction s rule: sub_ws.induct)
  case 1
  show ?case by simp
next
  case (2 c cs)
  show ?case
  proof (cases "is_space c")
    case True
    let ?r = "dropWhile is_space cs"
    have "sub_ws ?r = [] \<or> \<not> is_space (hd (sub_ws ?r))"
    proof (cases "?r = []")
      case True
      then show ?thesis by (metis sub_ws.simps(1))
    next
      case False
      then have "\<not> is_space (hd ?r)" by (rule dropWhile_hd)
      with False show ?thesis using sub_ws_hd [of ?r] by simp
    qed
    with True 2 show ?thesis by (simp add: ws_ok_Cons)
  next
    case False
    with 2 show ?thesis by (simp add: ws_ok_Cons)
  qed
qed

lemma ws_ok_append: "ws_ok (xs @ ys) \<Longrightarrow> ws_ok xs \<and> ws_ok ys"
proof (induction xs)
  case Nil
  then show ?case by simp
next
  case (Cons a xs)
  then show ?case
    by (cases xs) (auto simp: ws_ok_Cons)
qed

lemma ws_ok_strip: "ws_ok s \<Longrightarrow> ws_ok (strip s)"
proof -
  assume a: "ws_ok s"
  let ?d = "dropWhile is_space s"
  have "s = takeWhile is_space s @ ?d" by simp
  with a have d: "ws_ok ?d" using ws_ok_append by metis
  have "?d = rev (dropWhile is_space (rev ?d)) @ rev (takeWhile is_space (rev ?d))"
    by (metis rev_append rev_rev_ident takeWhile_dropWhile_id)
  with d have "ws_ok (rev (dropWhile is_space (rev ?d)))" using ws_ok_append by metis
  then show ?thesis by (simp add: strip_def)
qed

lemma strip_ends: "strip s \<noteq> [] \<Longrightarrow> \<not> is_space (hd (strip s)) \<and> \<not> is_space (last (strip s))"
proof -
  assume ne: "strip s \<noteq> []"
  let ?d = "dropWhile is_space s"
  let ?e = "dropWhile is_space (rev ?d)"
  from ne have e: "?e \<noteq> []" by (simp add: strip_def)
  then have l: "\<not> is_space (hd ?e)" by (rule dropWhile_hd)
  from e have dne: "?d \<noteq> []" by (metis dropWhile.simps(1) rev.simps(1))
  then have hd_d: "\<not> is_space (hd ?d)" by (rule dropWhile_hd)
  have "?d = rev ?e @ rev (takeWhile is_space (rev ?d))"
    by (metis rev_append rev_rev_ident takeWhile_dropWhile_id)
  with e have "hd ?d = hd (rev ?e)" by (metis hd_append2 rev_is_Nil_conv)
  with hd_d have h: "\<not> is_space (hd (rev ?e))" by simp
  from e l have "\<not> is_space (last (rev ?e))" by (simp add: last_rev)
  with h show ?thesis by (simp add: strip_def)
qed

lemma strip_id: "s = [] \<or> (\<not> is_space (hd s) \<and> \<not> is_space (last s)) \<Longrightarrow> strip s = s"
proof (cases "s = []")
  case True
  then show ?thesis by (simp add: strip_def)
next
  case False
  assume "s = [] \<or> (\<not> is_space (hd s) \<and> \<not> is_space (last s))"
  with False have h: "\<not> is_space (hd s)" and l: "\<not> is_space (last s)" by auto
  from False h have d: "dropWhile is_space s = s" by (cases s) auto
  from False l have "dropWhile is_space (rev s) = rev s"
    by (cases "rev s") (auto simp: last_rev [symmetric] hd_rev)
  with d show ?thesis by (simp add: strip_def)
qed

lemma sub_ws_id: "ws_ok s \<Longrightarrow> sub_ws s = s"
proof (induction s rule: ws_ok.induct)
  case 1
  show ?case by simp
next
  case (2 c)
  then show ?case by auto
next
  case (3 a b cs)
  then show ?case by auto
qed

lemma set_sub_ws: "set (sub_ws s) \<subseteq> insert 32 (set s)"
proof (induction s rule: sub_ws.induct)
  case 1
  show ?case by simp
next
  case (2 c cs)
  show ?case
  proof (cases "is_space c")
    case True
    with 2 have "set (sub_ws (dropWhile is_space cs)) \<subseteq> insert 32 (set (dropWhile is_space cs))"
      by simp
    moreover have "set (dropWhile is_space cs) \<subseteq> set cs" by (auto dest: set_dropWhileD)
    ultimately show ?thesis using True by auto
  next
    case False
    with 2 show ?thesis by auto
  qed
qed

lemma set_strip: "set (strip s) \<subseteq> set s"
  by (auto simp: strip_def dest!: set_dropWhileD)

lemma lower_blank: "lower ul [32] = [32]"
  by (simp add: lower_def lower_ascii_char_def)

lemma lower_clean:
  "keeps_lowered ul \<Longrightarrow> lower ul (strip (sub_ws (lower ul t))) = strip (sub_ws (lower ul t))"
proof -
  assume k: "keeps_lowered ul"
  have "\<forall>c \<in> set (strip (sub_ws (lower ul t))). lower ul [c] = [c]"
  proof
    fix c assume "c \<in> set (strip (sub_ws (lower ul t)))"
    with set_strip have "c \<in> set (sub_ws (lower ul t))" by blast
    with set_sub_ws have "c = 32 \<or> c \<in> set (lower ul t)" by blast
    with k show "lower ul [c] = [c]" unfolding keeps_lowered_def using lower_blank by blast
  qed
  with k show ?thesis unfolding keeps_lowered_def by blast
qed

lemma lower_clean_ascii:
  "list_all (\<lambda>c. c < 128) t \<Longrightarrow> lower ul (strip (sub_ws (lower ul t))) = strip (sub_ws (lower ul t))"
proof -
  assume a: "list_all (\<lambda>c. c < 128) t"
  then have l: "lower ul t = map lower_ascii_char t" by (simp add: lower_def)
  let ?out = "strip (sub_ws (map lower_ascii_char t))"
  have p: "\<forall>c \<in> set ?out. c < 128 \<and> lower_ascii_char c = c"
  proof
    fix c assume "c \<in> set ?out"
    with set_strip have "c \<in> set (sub_ws (map lower_ascii_char t))" by blast
    with set_sub_ws have "c = 32 \<or> c \<in> set (map lower_ascii_char t)" by blast
    then show "c < 128 \<and> lower_ascii_char c = c"
    proof
      assume "c = 32"
      then show ?thesis by (simp add: lower_ascii_char_def)
    next
      assume "c \<in> set (map lower_ascii_char t)"
      then obtain d where d: "d \<in> set t" "c = lower_ascii_char d" by auto
      from a d(1) have "d < 128" by (simp add: list_all_iff)
      with d(2) show ?thesis by (auto simp: lower_ascii_char_def)
    qed
  qed
  then have "list_all (\<lambda>c. c < 128) ?out" by (simp add: list_all_iff)
  then have "lower ul ?out = map lower_ascii_char ?out" by (simp add: lower_def)
  also from p have "\<dots> = ?out" by (auto intro: map_idI)
  finally show ?thesis unfolding l .
qed

lemma ws_ok_nth: "ws_ok s \<Longrightarrow> Suc i < length s \<Longrightarrow> \<not> (is_space (s ! i) \<and> is_space (s ! Suc i))"
proof (induction s arbitrary: i rule: ws_ok.induct)
  case 1
  then show ?case by simp
next
  case (2 c)
  then show ?case by simp
next
  case (3 a b cs)
  show ?case
  proof (cases i)
    case 0
    with 3 show ?thesis by auto
  next
    case (Suc j)
    with 3 show ?thesis by auto
  qed
qed

text \<open>
  C9. For every input string, whatever its characters, the output of the normalizer has
  no whitespace character at either end and no two adjacent whitespace characters, with
  whitespace as Python defines it for Unicode text; \<open>None\<close> and the empty string give the
  empty string. Normalizing twice is normalizing once: for every ASCII input, and for
  every input given that \<open>str.lower\<close> leaves alone the characters it produces and the
  strings made of them.
\<close>

theorem clean_text_normal_form:
  "(clean_text ul x = [] \<or> (\<not> is_space (hd (clean_text ul x)) \<and> \<not> is_space (last (clean_text ul x))))
   \<and> (\<forall>i. Suc i < length (clean_text ul x) \<longrightarrow>
          \<not> (is_space (clean_text ul x ! i) \<and> is_space (clean_text ul x ! Suc i)))
   \<and> clean_text ul None = [] \<and> clean_text ul (Some []) = []
   \<and> (keeps_lowered ul \<or> x = None \<or> (\<exists>t. x = Some t \<and> list_all (\<lambda>c. c < 128) t)
        \<longrightarrow> clean_text ul (Some (clean_text ul x)) = clean_text ul x)"
proof -
  let ?out = "clean_text ul x"
  have ends: "?out = [] \<or> (\<not> is_space (hd ?out) \<and> \<not> is_space (last ?out))"
  proof (cases x)
    case None
    then show ?thesis by simp
  next
    case (Some t)
    then show ?thesis using strip_ends [of "sub_ws (lower ul t)"] by auto
  qed
  have ok: "ws_ok ?out"
  proof (cases x)
    case None
    then show ?thesis by simp
  next
    case (Some t)
    then show ?thesis using ws_ok_strip [OF ws_ok_sub_ws, of "lower ul t"] by auto
  qed
  have idem: "clean_text ul (Some ?out) = ?out"
    if k: "keeps_lowered ul \<or> x = None \<or> (\<exists>t. x = Some t \<and> list_all (\<lambda>c. c < 128) t)"
  proof -
    have low: "lower ul ?out = ?out"
    proof (cases x)
      case None
      then show ?thesis by (simp add: lower_def)
    next
      case (Some t)
      show ?thesis
      proof (cases "list_all (\<lambda>c. c < 128) t")
        case True
        with Some show ?thesis using lower_clean_ascii [of t ul] by (auto simp: lower_def)
      next
        case False
        with k Some have "keeps_lowered ul" by simp
        with Some show ?thesis using lower_clean [of ul t] by (auto simp: lower_def)
      qed
    qed
    show ?thesis using low sub_ws_id [OF ok] strip_id [OF ends] by simp
  qed
  from ends ok idem show ?thesis using ws_ok_nth by auto
qed

lemma keeps_lowered_demo: "keeps_lowered demo_lower"
proof -
  have l: "lower demo_lower s = map lower_ascii_char s" for s
    by (simp add: lower_def demo_lower_def)
  have f: "lower_ascii_char (lower_ascii_char c) = lower_ascii_char c" for c
    by (simp add: lower_ascii_char_def)
  show ?thesis
    unfolding keeps_lowered_def l by (auto simp: f intro: map_idI)
qed

lemma demo_clean_ascii:
  "clean_text ul (Some (ascii ''  Hello   World '')) = ascii ''hello world''
   \<and> list_all (\<lambda>c. c < 128) (ascii ''  Hello   World '')"
  by code_simp

lemma demo_clean_text:
  "clean_text demo_lower (Some [32, 72, 0xC9, 0xA0, 0xA0, 0x2003, 87, 0x3000]) = [104, 0xC9, 32, 119]"
  by code_simp

theorem clean_text_normal_form_witness:
  "keeps_lowered demo_lower
   \<and> clean_text demo_lower (Some [32, 72, 0xC9, 0xA0, 0xA0, 0x2003, 87, 0x3000]) = [104, 0xC9, 32, 119]
   \<and> \<not> is_space (hd [104, 0xC9, 32, 119]) \<and> \<not> is_space (last [104, 0xC9, 32, 119])
   \<and> \<not> (is_space ([104, 0xC9, 32, 119] ! 2) \<and> is_space ([104, 0xC9, 32, 119] ! Suc 2))
   \<and> clean_text demo_lower (Some [104, 0xC9, 32, 119]) = [104, 0xC9, 32, 119]
   \<and> list_all (\<lambda>c. c < 128) (ascii ''  Hello   World '')
   \<and> clean_text demo_lower (Some (ascii ''  Hello   World '')) = ascii ''hello world''
   \<and> clean_text demo_lower (Some (ascii ''hello world'')) = ascii ''hello world''"
proof -
  from clean_text_normal_form [of demo_lower "Some [32, 72, 0xC9, 0xA0, 0xA0, 0x2003, 87, 0x3000]"]
    keeps_lowered_demo
  have a: "\<not> is_space (hd [104, 0xC9, 32, 119]) \<and> \<not> is_space (last [104, 0xC9, 32, 119])
   \<and> \<not> (is_space ([104, 0xC9, 32, 119] ! 2) \<and> is_space ([104, 0xC9, 32, 119] ! Suc 2))
   \<and> clean_text demo_lower (Some [104, 0xC9, 32, 119]) = [104, 0xC9, 32, 119]"
    unfolding demo_clean_text by (simp add: is_space_def)
  from clean_text_normal_form [of demo_lower "Some (ascii ''  Hello   World '')"]
    demo_clean_ascii [of demo_lower]
  have "clean_text demo_lower (Some (ascii ''hello world'')) = ascii ''hello world''"
    by simp
  with a keeps_lowered_demo demo_clean_text demo_clean_ascii [of demo_lower] show ?thesis by blast
qed

section \<open>Properties of the knowledge search\<close>

lemma leads_here: "\<forall>y \<in> set xs. score y \<le> score x \<Longrightarrow> leads score (x # xs) x"
  unfolding leads_def
  by (rule exI [of _ "[]"], rule exI [of _ xs]) simp

lemma leads_Cons: "leads score xs x \<Longrightarrow> score a < score x \<Longrightarrow> leads score (a # xs) x"
proof -
  assume l: "leads score xs x" and a: "score a < score x"
  from l obtain pre post where d: "xs = pre @ x # post" "\<forall>y \<in> set pre. score y < score x"
    "\<forall>y \<in> set post. score y \<le> score x"
    unfolding leads_def by blast
  show ?thesis
    unfolding leads_def
    by (rule exI [of _ "a # pre"], rule exI [of _ post]) (use d a in simp)
qed

lemma leads_pos: "leads score xs x \<Longrightarrow> x \<in> set xs"
  unfolding leads_def by auto

lemma search_step_score:
  "search_step ul q (b, h) x =
     (if h < entry_score ul q x then (Some (snd x), entry_score ul q x) else (b, h))"
  by (cases x) (simp add: entry_score_def Let_def)

lemma search_loop_Cons: "search_loop ul q st (x # xs) = search_loop ul q (search_step ul q st x) xs"
  by (simp add: search_loop_def)

lemma search_loop_Nil: "search_loop ul q st [] = st"
  by (simp add: search_loop_def)

lemma search_loop_append: "search_loop ul q st (xs @ ys) = search_loop ul q (search_loop ul q st xs) ys"
  by (simp add: search_loop_def)

lemma search_loop_inv:
  "(search_loop ul q (b, h) xs = (b, h) \<and> (\<forall>x \<in> set xs. entry_score ul q x \<le> h))
     \<or> (\<exists>x. leads (entry_score ul q) xs x \<and> search_loop ul q (b, h) xs = (Some (snd x), entry_score ul q x)
            \<and> h < entry_score ul q x)"
proof (induction xs arbitrary: b h)
  case Nil
  show ?case by (simp add: search_loop_Nil)
next
  case (Cons a xs)
  show ?case
  proof (cases "h < entry_score ul q a")
    case True
    then have step: "search_loop ul q (b, h) (a # xs) = search_loop ul q (Some (snd a), entry_score ul q a) xs"
      by (simp only: search_loop_Cons search_step_score if_True)
    from Cons.IH [of "Some (snd a)" "entry_score ul q a"] show ?thesis
    proof
      assume same: "search_loop ul q (Some (snd a), entry_score ul q a) xs = (Some (snd a), entry_score ul q a)
          \<and> (\<forall>x \<in> set xs. entry_score ul q x \<le> entry_score ul q a)"
      then have "leads (entry_score ul q) (a # xs) a" by (simp add: leads_here)
      with same step True show ?thesis by metis
    next
      assume "\<exists>x. leads (entry_score ul q) xs x
          \<and> search_loop ul q (Some (snd a), entry_score ul q a) xs = (Some (snd x), entry_score ul q x)
          \<and> entry_score ul q a < entry_score ul q x"
      then obtain x where x: "leads (entry_score ul q) xs x"
        "search_loop ul q (Some (snd a), entry_score ul q a) xs = (Some (snd x), entry_score ul q x)"
        "entry_score ul q a < entry_score ul q x" by blast
      from x(1,3) have "leads (entry_score ul q) (a # xs) x" by (rule leads_Cons)
      moreover from True x(3) have "h < entry_score ul q x" by simp
      ultimately show ?thesis using step x(2) by metis
    qed
  next
    case False
    then have step: "search_loop ul q (b, h) (a # xs) = search_loop ul q (b, h) xs"
      by (simp only: search_loop_Cons search_step_score if_False)
    from Cons.IH [of b h] show ?thesis
    proof
      assume same: "search_loop ul q (b, h) xs = (b, h) \<and> (\<forall>x \<in> set xs. entry_score ul q x \<le> h)"
      with False have "\<forall>x \<in> set (a # xs). entry_score ul q x \<le> h" by simp
      with same step show ?thesis by metis
    next
      assume "\<exists>x. leads (entry_score ul q) xs x
          \<and> search_loop ul q (b, h) xs = (Some (snd x), entry_score ul q x) \<and> h < entry_score ul q x"
      then obtain x where x: "leads (entry_score ul q) xs x"
        "search_loop ul q (b, h) xs = (Some (snd x), entry_score ul q x)"
        "h < entry_score ul q x" by blast
      from False x(3) have "entry_score ul q a < entry_score ul q x" by simp
      with x(1) have "leads (entry_score ul q) (a # xs) x" by (rule leads_Cons)
      with step x(2,3) show ?thesis by metis
    qed
  qed
qed

lemma search_loop_first_best:
  "\<exists>b. first_best (entry_score ul q) xs b
       \<and> search_result (search_loop ul q (None, 0) xs) = map_option snd b"
proof -
  from search_loop_inv [of ul q None 0 xs] show ?thesis
  proof
    assume same: "search_loop ul q (None, 0) xs = (None, 0) \<and> (\<forall>x \<in> set xs. entry_score ul q x \<le> 0)"
    then have "first_best (entry_score ul q) xs None" by (simp add: first_best_def)
    moreover from same have "search_result (search_loop ul q (None, 0) xs) = map_option snd None"
      by (simp add: search_result_def)
    ultimately show ?thesis by (rule_tac x = None in exI) simp
  next
    assume "\<exists>x. leads (entry_score ul q) xs x
        \<and> search_loop ul q (None, 0) xs = (Some (snd x), entry_score ul q x) \<and> 0 < entry_score ul q x"
    then obtain x where x: "leads (entry_score ul q) xs x"
      "search_loop ul q (None, 0) xs = (Some (snd x), entry_score ul q x)" "0 < entry_score ul q x"
      by blast
    from x(1) have "x \<in> set xs" by (rule leads_pos)
    with x(3) have "\<not> (\<forall>y \<in> set xs. entry_score ul q y = 0)" by auto
    with x(1) have "first_best (entry_score ul q) xs (Some x)" by (simp add: first_best_def)
    moreover from x(2,3) have "search_result (search_loop ul q (None, 0) xs) = map_option snd (Some x)"
      by (simp add: search_result_def)
    ultimately show ?thesis by (rule_tac x = "Some x" in exI) simp
  qed
qed

lemma search_all_dicts:
  "all_dicts kb \<Longrightarrow> search_all ul q st kb = Inr (search_loop ul q st (store_entries kb))"
proof (induction kb arbitrary: st)
  case Nil
  show ?case by (simp add: store_entries_def search_loop_Nil)
next
  case (Cons p kb)
  obtain t d where p: "p = (t, d)" by (cases p)
  from Cons.prems p have "is_dict d" by (simp add: all_dicts_def)
  then obtain its where d: "d = JDict its" by (cases d) simp_all
  from Cons.prems have "all_dicts kb" by (simp add: all_dicts_def)
  from Cons.IH [OF this] p d show ?case
    by (simp add: store_entries_def search_loop_append)
qed

lemma search_topic: "topic \<noteq> [] \<Longrightarrow> map_of kb topic = Some (JDict its) \<Longrightarrow>
   search ul kb query (Some topic) = Inr (search_result (search_loop ul (lower ul query) (None, 0) its))"
  by (simp add: search_def)

lemma search_no_topic: "all_dicts kb \<Longrightarrow>
   search ul kb query None = Inr (search_result (search_loop ul (lower ul query) (None, 0) (store_entries kb)))"
  by (simp add: search_def search_all_dicts)

lemma search_unknown_topic: "map_of kb t = None \<Longrightarrow> search ul kb query (Some t) = search ul kb query None"
  by (simp add: search_def)

lemma content_match_iff:
  "content_match ul q p = (case p of (field, content) \<Rightarrow>
      \<exists>s. content = JStr s \<and> (\<exists>word \<in> set (split q). sublist word (lower ul s)))"
proof (cases p)
  case (Pair field content)
  then show ?thesis by (cases content) (simp_all add: any_word_in_def list_ex_iff)
qed

lemma calculate_relevance_dict:
  "calculate_relevance ul q key (JDict dict) =
     (if \<exists>word \<in> set (split q). sublist word (lower ul key) then 2 else 0)
     + length (filter (\<lambda>(field, content).
         \<exists>s. content = JStr s \<and> (\<exists>word \<in> set (split q). sublist word (lower ul s))) dict)"
proof -
  have "content_match ul q = (\<lambda>(field, content).
         \<exists>s. content = JStr s \<and> (\<exists>word \<in> set (split q). sublist word (lower ul s)))"
    by (rule ext) (simp add: content_match_iff)
  then show ?thesis by (simp add: any_word_in_def list_ex_iff)
qed

lemma calculate_relevance_str:
  "calculate_relevance ul q key (JStr s) =
     (if \<exists>word \<in> set (split q). sublist word (lower ul key) then 2 else 0)
     + (if \<exists>word \<in> set (split q). sublist word (lower ul s) then 1 else 0)"
  by (simp add: any_word_in_def list_ex_iff)

text \<open>
  C2. For a non-empty topic name that is a key of the store and holds a dictionary,
  \<open>search\<close> returns the value of the first item of that dictionary with the greatest
  relevance score against the lowercased query, and \<open>None\<close> when every item scores zero;
  without a topic the same holds for the items of all topics, in iteration order. The
  score of an item is 2 if some whitespace-delimited word of the query occurs in the
  lowercased key, plus 1 for each field of a dictionary entry whose value is a string whose
  lowercased text holds some query word, plus 1 if the entry is itself such a string.
\<close>

theorem search_best_match:
  "(topic \<noteq> [] \<and> map_of kb topic = Some (JDict its) \<longrightarrow>
      (\<exists>b. first_best (entry_score ul (lower ul query)) its b
          \<and> search ul kb query (Some topic) = Inr (map_option snd b)))
   \<and> (all_dicts kb \<longrightarrow>
      (\<exists>b. first_best (entry_score ul (lower ul query)) (store_entries kb) b
          \<and> search ul kb query None = Inr (map_option snd b)))
   \<and> entry_score ul q (key, JDict dict) =
        (if \<exists>word \<in> set (split q). sublist word (lower ul key) then 2 else 0)
        + length (filter (\<lambda>(field, content).
            \<exists>s. content = JStr s \<and> (\<exists>word \<in> set (split q). sublist word (lower ul s))) dict)
   \<and> entry_score ul q (key, JStr s) =
        (if \<exists>word \<in> set (split q). sublist word (lower ul key) then 2 else 0)
        + (if \<exists>word \<in> set (split q). sublist word (lower ul s) then 1 else 0)"
proof (intro conjI impI)
  assume "topic \<noteq> [] \<and> map_of kb topic = Some (JDict its)"
  then have "search ul kb query (Some topic) = Inr (search_result (search_loop ul (lower ul query) (None, 0) its))"
    by (simp add: search_topic)
  with search_loop_first_best [of ul "lower ul query" its]
  show "\<exists>b. first_best (entry_score ul (lower ul query)) its b
          \<and> search ul kb query (Some topic) = Inr (map_option snd b)"
    by auto
next
  assume "all_dicts kb"
  then have "search ul kb query None = Inr (search_result (search_loop ul (lower ul query) (None, 0) (store_entries kb)))"
    by (rule search_no_topic)
  with search_loop_first_best [of ul "lower ul query" "store_entries kb"]
  show "\<exists>b. first_best (entry_score ul (lower ul query)) (store_entries kb) b
          \<and> search ul kb query None = Inr (map_option snd b)"
    by auto
next
  show "entry_score ul q (key, JDict dict) =
        (if \<exists>word \<in> set (split q). sublist word (lower ul key) then 2 else 0)
        + length (filter (\<lambda>(field, content).
            \<exists>s. content = JStr s \<and> (\<exists>word \<in> set (split q). sublist word (lower ul s))) dict)"
    unfolding entry_score_def fst_conv snd_conv by (rule calculate_relevance_dict)
next
  show "entry_score ul q (key, JStr s) =
        (if \<exists>word \<in> set (split q). sublist word (lower ul key) then 2 else 0)
        + (if \<exists>word \<in> set (split q). sublist word (lower ul s) then 1 else 0)"
    unfolding entry_score_def fst_conv snd_conv by (rule calculate_relevance_str)
qed

lemma demo_search:
  "search ul [(ascii ''crops'', JDict [(ascii ''rice'', JStr (ascii ''grain'')), (ascii ''wheat'', JStr (ascii ''wheat grain''))])] (ascii ''Wheat'') (Some (ascii ''crops''))
       = Inr (Some (JStr (ascii ''wheat grain'')))"
  by code_simp

theorem search_best_match_witness:
  "(ascii ''crops'') \<noteq> [] \<and> map_of [(ascii ''crops'', JDict [(ascii ''rice'', JStr (ascii ''grain'')), (ascii ''wheat'', JStr (ascii ''wheat grain''))])] (ascii ''crops'')
      = Some (JDict [(ascii ''rice'', JStr (ascii ''grain'')), (ascii ''wheat'', JStr (ascii ''wheat grain''))])
   \<and> all_dicts [(ascii ''crops'', JDict [(ascii ''rice'', JStr (ascii ''grain'')), (ascii ''wheat'', JStr (ascii ''wheat grain''))])]
   \<and> (\<exists>b. first_best (entry_score demo_lower (lower demo_lower (ascii ''Wheat''))) [(ascii ''rice'', JStr (ascii ''grain'')), (ascii ''wheat'', JStr (ascii ''wheat grain''))] b
          \<and> Inr (Some (JStr (ascii ''wheat grain''))) = (Inr (map_option snd b) :: exn + json option))"
proof -
  have h: "(ascii ''crops'') \<noteq> [] \<and> map_of [(ascii ''crops'', JDict [(ascii ''rice'', JStr (ascii ''grain'')), (ascii ''wheat'', JStr (ascii ''wheat grain''))])] (ascii ''crops'')
      = Some (JDict [(ascii ''rice'', JStr (ascii ''grain'')), (ascii ''wheat'', JStr (ascii ''wheat grain''))])"
    by simp
  have d: "all_dicts [(ascii ''crops'', JDict [(ascii ''rice'', JStr (ascii ''grain'')), (ascii ''wheat'', JStr (ascii ''wheat grain''))])]"
    by (simp add: all_dicts_def)
  from search_best_match [of "(ascii ''crops'')" "[(ascii ''crops'', JDict [(ascii ''rice'', JStr (ascii ''grain'')), (ascii ''wheat'', JStr (ascii ''wheat grain''))])]"
       "[(ascii ''rice'', JStr (ascii ''grain'')), (ascii ''wheat'', JStr (ascii ''wheat grain''))]" demo_lower "(ascii ''Wheat'')"] h
  have "\<exists>b. first_best (entry_score demo_lower (lower demo_lower (ascii ''Wheat''))) [(ascii ''rice'', JStr (ascii ''grain'')), (ascii ''wheat'', JStr (ascii ''wheat grain''))] b
          \<and> search demo_lower [(ascii ''crops'', JDict [(ascii ''rice'', JStr (ascii ''grain'')), (ascii ''wheat'', JStr (ascii ''wheat grain''))])] (ascii ''Wheat'') (Some (ascii ''crops''))
              = Inr (map_option snd b)"
    by blast
  then have "\<exists>b. first_best (entry_score demo_lower (lower demo_lower (ascii ''Wheat''))) [(ascii ''rice'', JStr (ascii ''grain'')), (ascii ''wheat'', JStr (ascii ''wheat grain''))] b
          \<and> Inr (Some (JStr (ascii ''wheat grain''))) = (Inr (map_option snd b) :: exn + json option)"
    by (simp only: demo_search)
  with h d show ?thesis by blast
qed

section \<open>Properties of the topic classifier\<close>

lemma leads_Cons_cases:
  "leads f (x # ys) r \<Longrightarrow> (r = x \<and> (\<forall>y \<in> set ys. f y \<le> f x)) \<or> (f x < f r \<and> leads f ys r)"
proof -
  assume "leads f (x # ys) r"
  then obtain pre post where d: "x # ys = pre @ r # post" "\<forall>y \<in> set pre. f y < f r"
    "\<forall>y \<in> set post. f y \<le> f r"
    unfolding leads_def by blast
  show ?thesis
  proof (cases pre)
    case Nil
    with d show ?thesis by simp
  next
    case (Cons p pre')
    with d(1) have e: "x = p" "ys = pre' @ r # post" by simp_all
    from d(2) Cons have "\<forall>y \<in> set pre'. f y < f r" by simp
    with e(2) d(3) have "leads f ys r" unfolding leads_def by blast
    moreover from d(2) Cons e(1) have "f x < f r" by simp
    ultimately show ?thesis by simp
  qed
qed

lemma py_max_inv:
  "(py_max key b xs = b \<and> (\<forall>x \<in> set xs. key x \<le> key b))
   \<or> (leads key xs (py_max key b xs) \<and> key b < key (py_max key b xs))"
proof (induction xs arbitrary: b)
  case Nil
  show ?case by simp
next
  case (Cons a xs)
  show ?case
  proof (cases "key b < key a")
    case True
    then have step: "py_max key b (a # xs) = py_max key a xs" by simp
    from Cons.IH [of a] show ?thesis
    proof
      assume same: "py_max key a xs = a \<and> (\<forall>x \<in> set xs. key x \<le> key a)"
      then have "leads key (a # xs) a" by (simp add: leads_here)
      with same step True show ?thesis by simp
    next
      assume far: "leads key xs (py_max key a xs) \<and> key a < key (py_max key a xs)"
      then have "leads key (a # xs) (py_max key a xs)" by (simp add: leads_Cons)
      with far step True show ?thesis by simp
    qed
  next
    case False
    then have step: "py_max key b (a # xs) = py_max key b xs" by simp
    from Cons.IH [of b] show ?thesis
    proof
      assume "py_max key b xs = b \<and> (\<forall>x \<in> set xs. key x \<le> key b)"
      with step False show ?thesis by simp
    next
      assume far: "leads key xs (py_max key b xs) \<and> key b < key (py_max key b xs)"
      with False have "key a < key (py_max key b xs)" by simp
      with far have "leads key (a # xs) (py_max key b xs)" by (simp add: leads_Cons)
      with far step show ?thesis by simp
    qed
  qed
qed

lemma py_max_leads: "leads key (b # xs) (py_max key b xs)"
  using py_max_inv [of key b xs] by (auto simp: leads_here leads_Cons)

lemma leads_filter: "leads f (filter (\<lambda>x. 0 < f x) xs) r \<Longrightarrow> leads f xs r"
proof (induction xs)
  case Nil
  then show ?case by simp
next
  case (Cons a xs)
  show ?case
  proof (cases "0 < f a")
    case True
    with Cons.prems have "leads f (a # filter (\<lambda>x. 0 < f x) xs) r" by simp
    then show ?thesis
    proof (rule leads_Cons_cases [THEN disjE])
      assume h: "r = a \<and> (\<forall>y \<in> set (filter (\<lambda>x. 0 < f x) xs). f y \<le> f a)"
      have "\<forall>y \<in> set xs. f y \<le> f a"
      proof
        fix y assume "y \<in> set xs"
        with h show "f y \<le> f a" by (cases "0 < f y") auto
      qed
      with h show ?thesis by (simp add: leads_here)
    next
      assume h: "f a < f r \<and> leads f (filter (\<lambda>x. 0 < f x) xs) r"
      with Cons.IH have "leads f xs r" by simp
      with h show ?thesis by (simp add: leads_Cons)
    qed
  next
    case False
    with Cons.prems have l: "leads f (filter (\<lambda>x. 0 < f x) xs) r" by simp
    then have "r \<in> set (filter (\<lambda>x. 0 < f x) xs)" by (rule leads_pos)
    then have "0 < f r" by simp
    with False have "f a < f r" by simp
    moreover from l Cons.IH have "leads f xs r" by simp
    ultimately show ?thesis by (simp add: leads_Cons)
  qed
qed

lemma leads_map: "leads f (map g xs) r \<Longrightarrow> \<exists>x. r = g x \<and> leads (\<lambda>x. f (g x)) xs x"
proof (induction xs)
  case Nil
  then show ?case by (simp add: leads_def)
next
  case (Cons a xs)
  from Cons.prems have "leads f (g a # map g xs) r" by simp
  then show ?case
  proof (rule leads_Cons_cases [THEN disjE])
    assume h: "r = g a \<and> (\<forall>y \<in> set (map g xs). f y \<le> f (g a))"
    then have "leads (\<lambda>x. f (g x)) (a # xs) a" by (simp add: leads_here)
    with h show ?thesis by blast
  next
    assume h: "f (g a) < f r \<and> leads f (map g xs) r"
    with Cons.IH obtain x where x: "r = g x" "leads (\<lambda>x. f (g x)) xs x" by blast
    with h have "leads (\<lambda>x. f (g x)) (a # xs) x" by (simp add: leads_Cons)
    with x(1) show ?thesis by blast
  qed
qed

lemma identify_topic_general:
  fixes tbl :: "(ustring \<times> ustring list) list" and cnt :: "ustring list \<Rightarrow> nat"
  assumes a: "(case filter (\<lambda>(topic, score). score > 0) (map (\<lambda>(topic, keywords). (topic, cnt keywords)) tbl) of
      [] \<Rightarrow> None
    | first # rest \<Rightarrow> Some (fst (py_max snd first rest))) = r"
  shows "\<exists>b. first_best (\<lambda>(topic, keywords). cnt keywords) tbl b \<and> r = map_option fst b"
proof -
  let ?g = "\<lambda>(topic, keywords). (topic, cnt keywords)"
  let ?f = "\<lambda>(topic :: ustring, keywords). cnt keywords :: nat"
  let ?ts = "filter (\<lambda>(topic, score). score > 0) (map ?g tbl)"
  have ts: "?ts = filter (\<lambda>p. 0 < snd p) (map ?g tbl)"
    by (rule filter_cong) auto
  have fg: "(\<lambda>x. snd (?g x)) = ?f" by auto
  show ?thesis
  proof (cases ?ts)
    case Nil
    with a have r: "r = None" by simp
    from Nil have "\<forall>p \<in> set (map ?g tbl). \<not> 0 < snd p"
      unfolding ts by (simp only: filter_empty_conv)
    then have "\<forall>x \<in> set tbl. ?f x = 0" by auto
    then have "first_best ?f tbl None" by (simp add: first_best_def)
    with r show ?thesis by (rule_tac x = None in exI) simp
  next
    case (Cons first rest)
    with a have r: "r = Some (fst (py_max snd first rest))" by simp
    have "leads snd (first # rest) (py_max snd first rest)" by (rule py_max_leads)
    with Cons have "leads snd (filter (\<lambda>p. 0 < snd p) (map ?g tbl)) (py_max snd first rest)"
      unfolding ts by simp
    then have l: "leads snd (map ?g tbl) (py_max snd first rest)" by (rule leads_filter)
    from leads_map [OF l] obtain x where x: "py_max snd first rest = ?g x" "leads (\<lambda>x. snd (?g x)) tbl x"
      by blast
    from x(2) have lx: "leads ?f tbl x" unfolding fg .
    have "py_max snd first rest \<in> set (first # rest)" using py_max_leads leads_pos by fastforce
    with Cons have "py_max snd first rest \<in> set (filter (\<lambda>p. 0 < snd p) (map ?g tbl))"
      unfolding ts by simp
    then have "0 < snd (py_max snd first rest)" by simp
    with x(1) have pos: "0 < ?f x" by (cases x) simp
    from lx have "x \<in> set tbl" by (rule leads_pos)
    with pos have "\<not> (\<forall>y \<in> set tbl. ?f y = 0)" by auto
    with lx have "first_best ?f tbl (Some x)" by (simp add: first_best_def)
    moreover from r x(1) have "r = map_option fst (Some x)" by (cases x) simp
    ultimately show ?thesis by (rule_tac x = "Some x" in exI) simp
  qed
qed

text \<open>
  C4. The classifier counts, for each topic of the pattern table, how many keywords of
  the topic occur as substrings of the text, and returns the first topic of the table
  with the greatest count, or \<open>None\<close> when every count is zero; the table lists crops,
  pests, soil, weather, seeds and harvest in this order.
\<close>

theorem identify_topic_first_max:
  "(\<exists>b. first_best (\<lambda>(topic, keywords). length (filter (\<lambda>keyword. sublist keyword text) keywords))
          topic_patterns b
        \<and> identify_topic text = map_option fst b)
   \<and> map fst topic_patterns
       = [ascii ''crops'', ascii ''pests'', ascii ''soil'', ascii ''weather'', ascii ''seeds'', ascii ''harvest'']"
proof
  show "\<exists>b. first_best (\<lambda>(topic, keywords). length (filter (\<lambda>keyword. sublist keyword text) keywords))
          topic_patterns b
        \<and> identify_topic text = map_option fst b"
    by (rule identify_topic_general) (simp add: identify_topic_def keyword_count_def Let_def)
  show "map fst topic_patterns
       = [ascii ''crops'', ascii ''pests'', ascii ''soil'', ascii ''weather'', ascii ''seeds'', ascii ''harvest'']"
    by (simp add: topic_patterns_def)
qed

lemma demo_identify_topic:
  "identify_topic (ascii ''pest crop'') = Some (ascii ''crops'')
   \<and> identify_topic (ascii ''pest crop bug'') = Some (ascii ''pests'')
   \<and> identify_topic (ascii ''when to sow'') = None"
  by code_simp

lemma demo_counts:
  "map (\<lambda>(topic, keywords). length (filter (\<lambda>keyword. sublist keyword (ascii ''pest crop bug'')) keywords))
     topic_patterns = [1, 2, 0, 0, 0, 0]"
  by code_simp

theorem identify_topic_first_max_witness:
  "identify_topic (ascii ''pest crop'') = Some (ascii ''crops'')
   \<and> identify_topic (ascii ''pest crop bug'') = Some (ascii ''pests'')
   \<and> identify_topic (ascii ''when to sow'') = None
   \<and> map (\<lambda>(topic, keywords). length (filter (\<lambda>keyword. sublist keyword (ascii ''pest crop bug'')) keywords))
        topic_patterns = [1, 2, 0, 0, 0, 0]
   \<and> (\<exists>b. first_best (\<lambda>(topic, keywords). length (filter (\<lambda>keyword. sublist keyword (ascii ''pest crop bug'')) keywords))
          topic_patterns b
        \<and> Some (ascii ''pests'') = map_option fst b)"
proof -
  from identify_topic_first_max [of "ascii ''pest crop bug''"] demo_identify_topic
  have "\<exists>b. first_best (\<lambda>(topic, keywords). length (filter (\<lambda>keyword. sublist keyword (ascii ''pest crop bug'')) keywords))
          topic_patterns b
        \<and> Some (ascii ''pests'') = map_option fst b"
    by simp
  with demo_identify_topic demo_counts show ?thesis by blast
qed

section \<open>Topics that are no key of the store\<close>

lemma load_knowledge_keys:
  "map fst (load_knowledge f) = [ascii ''crops'', ascii ''pests'', ascii ''soil'', ascii ''weather'', ascii ''general'']"
  by (cases f) (simp_all add: get_default_knowledge_def)

lemma load_knowledge_no_seeds:
  "map_of (load_knowledge f) (ascii ''seeds'') = None \<and> map_of (load_knowledge f) (ascii ''harvest'') = None"
  by (cases f) (simp_all add: get_default_knowledge_def)

text \<open>
  C10. When the topic passed to \<open>search\<close> is no key of the store, the result is that of the
  search without topic: the first item with the greatest score among the items of all
  topics, or \<open>None\<close> when all scores are zero. The keys of the store are crops, pests,
  soil, weather and general whatever the crops file holds, so this is the case for the
  topics seeds and harvest of the classifier.
\<close>

theorem search_unknown_topic_scans_all:
  "(map_of kb t = None \<longrightarrow> search ul kb query (Some t) = search ul kb query None)
   \<and> (map_of kb t = None \<and> all_dicts kb \<longrightarrow>
        (\<exists>b. first_best (entry_score ul (lower ul query)) (store_entries kb) b
            \<and> search ul kb query (Some t) = Inr (map_option snd b)))
   \<and> map fst (load_knowledge f) = [ascii ''crops'', ascii ''pests'', ascii ''soil'', ascii ''weather'', ascii ''general'']
   \<and> search ul (load_knowledge f) query (Some (ascii ''seeds'')) = search ul (load_knowledge f) query None
   \<and> search ul (load_knowledge f) query (Some (ascii ''harvest'')) = search ul (load_knowledge f) query None"
proof (intro conjI impI)
  assume "map_of kb t = None"
  then show "search ul kb query (Some t) = search ul kb query None" by (rule search_unknown_topic)
next
  assume a: "map_of kb t = None \<and> all_dicts kb"
  then have "search ul kb query (Some t)
      = Inr (search_result (search_loop ul (lower ul query) (None, 0) (store_entries kb)))"
    by (simp add: search_unknown_topic search_no_topic)
  with search_loop_first_best [of ul "lower ul query" "store_entries kb"]
  show "\<exists>b. first_best (entry_score ul (lower ul query)) (store_entries kb) b
            \<and> search ul kb query (Some t) = Inr (map_option snd b)"
    by auto
next
  show "map fst (load_knowledge f) = [ascii ''crops'', ascii ''pests'', ascii ''soil'', ascii ''weather'', ascii ''general'']"
    by (rule load_knowledge_keys)
next
  show "search ul (load_knowledge f) query (Some (ascii ''seeds'')) = search ul (load_knowledge f) query None"
    using load_knowledge_no_seeds [of f] by (simp add: search_unknown_topic)
next
  show "search ul (load_knowledge f) query (Some (ascii ''harvest'')) = search ul (load_knowledge f) query None"
    using load_knowledge_no_seeds [of f] by (simp add: search_unknown_topic)
qed

lemma demo_search_all:
  "search ul [(ascii ''crops'', JDict [(ascii ''rice'', JStr (ascii ''grain''))])] (ascii ''rice seeds'') None = Inr (Some (JStr (ascii ''grain'')))"
  by code_simp

theorem search_unknown_topic_scans_all_witness:
  "map_of [(ascii ''crops'', JDict [(ascii ''rice'', JStr (ascii ''grain''))])] (ascii ''seeds'') = None
   \<and> all_dicts [(ascii ''crops'', JDict [(ascii ''rice'', JStr (ascii ''grain''))])]
   \<and> search demo_lower [(ascii ''crops'', JDict [(ascii ''rice'', JStr (ascii ''grain''))])] (ascii ''rice seeds'') (Some (ascii ''seeds''))
       = Inr (Some (JStr (ascii ''grain'')))
   \<and> (\<exists>b. first_best (entry_score demo_lower (lower demo_lower (ascii ''rice seeds''))) (store_entries [(ascii ''crops'', JDict [(ascii ''rice'', JStr (ascii ''grain''))])]) b
            \<and> search demo_lower [(ascii ''crops'', JDict [(ascii ''rice'', JStr (ascii ''grain''))])] (ascii ''rice seeds'') (Some (ascii ''seeds'')) = Inr (map_option snd b))"
proof -
  have n: "map_of [(ascii ''crops'', JDict [(ascii ''rice'', JStr (ascii ''grain''))])] (ascii ''seeds'') = None" by simp
  have d: "all_dicts [(ascii ''crops'', JDict [(ascii ''rice'', JStr (ascii ''grain''))])]" by (simp add: all_dicts_def)
  note t = search_unknown_topic_scans_all [of "[(ascii ''crops'', JDict [(ascii ''rice'', JStr (ascii ''grain''))])]" "(ascii ''seeds'')" demo_lower "(ascii ''rice seeds'')" Absent]
  from t n have e: "search demo_lower [(ascii ''crops'', JDict [(ascii ''rice'', JStr (ascii ''grain''))])] (ascii ''rice seeds'') (Some (ascii ''seeds''))
       = Inr (Some (JStr (ascii ''grain'')))"
    by (simp only: demo_search_all)
  from t n d have "\<exists>b. first_best (entry_score demo_lower (lower demo_lower (ascii ''rice seeds''))) (store_entries [(ascii ''crops'', JDict [(ascii ''rice'', JStr (ascii ''grain''))])]) b
            \<and> search demo_lower [(ascii ''crops'', JDict [(ascii ''rice'', JStr (ascii ''grain''))])] (ascii ''rice seeds'') (Some (ascii ''seeds'')) = Inr (map_option snd b)"
    by blast
  with n d e show ?thesis by blast
qed

section \<open>Loading the knowledge store\<close>

text \<open>
  C3. With no crops file the store holds the five built-in crops and no entry under pests,
  soil, weather and general; the two pest, two soil, one weather and one general entries
  are loaded only when opening or parsing an existing file raises.
\<close>

theorem load_knowledge_absent_counts:
  "map (\<lambda>(topic, topic_data). (topic, length (entries_of topic_data))) (load_knowledge Absent)
     = [(ascii ''crops'', 5), (ascii ''pests'', 0), (ascii ''soil'', 0), (ascii ''weather'', 0), (ascii ''general'', 0)]
   \<and> map (\<lambda>(topic, topic_data). (topic, length (entries_of topic_data))) (load_knowledge Unreadable)
     = [(ascii ''crops'', 5), (ascii ''pests'', 2), (ascii ''soil'', 2), (ascii ''weather'', 1), (ascii ''general'', 1)]"
  by (simp add: get_default_knowledge_def get_default_crops_data_def)

section \<open>The generation client\<close>

text \<open>
  C6. When the initialisation of the backend raised, so that no chat session exists,
  \<open>_get_ai_response\<close> returns the offline message and makes no call, for every user text
  and context.
\<close>

theorem get_ai_response_offline:
  "get_ai_response (w\<lparr>chat := init_chat (Inl e)\<rparr>) user_input context = (offline_message, [])"
  by (simp add: get_ai_response_def init_chat_def)

text \<open>
  C7. A reply that opens with the tagged fence and holds a code block of its own: the
  fences of the inner block are deleted as well, so the inner text is not preserved.
\<close>

theorem strip_fence_inner_block:
  "strip_fence (ascii ''```markdown'' @ nl @ ascii ''A'' @ nl @ ascii ''```python'' @ nl @ ascii ''x'' @ nl @ ascii ''```'' @ nl @ ascii ''B'' @ nl @ ascii ''```'')
     = ascii ''Apython'' @ nl @ ascii ''x'' @ nl @ ascii ''B''"
  by code_simp

section \<open>The dialogue router\<close>

lemma demo_greeting: "is_greeting (clean_text ul (Some (lower ul (ascii ''hi, how do I grow rice''))))"
  by code_simp

lemma demo_farewell:
  "clean_text ul (Some (lower ul (ascii ''bye, thanks for the help''))) = (ascii ''bye, thanks for the help'')
   \<and> \<not> (\<exists>g \<in> set [ascii ''hello'', ascii ''hi'', ascii ''hey'', ascii ''good morning'', ascii ''good afternoon'', ascii ''good evening''].
          sublist g (ascii ''bye, thanks for the help''))
   \<and> (\<exists>g \<in> set [ascii ''bye'', ascii ''goodbye'', ascii ''see you'', ascii ''thanks'', ascii ''thank you'', ascii ''exit'', ascii ''quit''].
          sublist g (ascii ''bye, thanks for the help''))"
  by code_simp

text \<open>
  C1. After normalization \<open>get_response\<close> tests the six greeting phrases, then the seven
  farewell phrases, then the eight weather keywords, each as substrings, and takes the
  branch of the first test that succeeds: one of the three greeting templates, the
  farewell string, the weather branch, or else the topic-classification branch. The
  message "hi, how do I grow rice" gets a greeting.
\<close>

theorem get_response_dispatch:
  "get_response w msg =
     (let t = clean_text (unicode_lower w) (Some (lower (unicode_lower w) msg)) in
      if \<exists>g \<in> set [ascii ''hello'', ascii ''hi'', ascii ''hey'', ascii ''good morning'', ascii ''good afternoon'', ascii ''good evening'']. sublist g t
      then (Inr (greetings ! (random_index w mod 3)), [])
      else if \<exists>g \<in> set [ascii ''bye'', ascii ''goodbye'', ascii ''see you'', ascii ''thanks'', ascii ''thank you'', ascii ''exit'', ascii ''quit'']. sublist g t
      then (Inr farewell, [])
      else if \<exists>k \<in> set [ascii ''weather'', ascii ''rain'', ascii ''season'', ascii ''climate'', ascii ''temperature'', ascii ''humidity'',
                           ascii ''pressure'', ascii ''forecast'']. sublist k t
      then weather_reply w
      else process_agriculture_query w t)
   \<and> length greetings = 3 \<and> greetings ! (random_index w mod 3) \<in> set greetings
   \<and> fst (get_response w (ascii ''hi, how do I grow rice'')) \<in> Inr ` set greetings"
proof (intro conjI)
  show "get_response w msg =
     (let t = clean_text (unicode_lower w) (Some (lower (unicode_lower w) msg)) in
      if \<exists>g \<in> set [ascii ''hello'', ascii ''hi'', ascii ''hey'', ascii ''good morning'', ascii ''good afternoon'', ascii ''good evening'']. sublist g t
      then (Inr (greetings ! (random_index w mod 3)), [])
      else if \<exists>g \<in> set [ascii ''bye'', ascii ''goodbye'', ascii ''see you'', ascii ''thanks'', ascii ''thank you'', ascii ''exit'', ascii ''quit'']. sublist g t
      then (Inr farewell, [])
      else if \<exists>k \<in> set [ascii ''weather'', ascii ''rain'', ascii ''season'', ascii ''climate'', ascii ''temperature'', ascii ''humidity'',
                           ascii ''pressure'', ascii ''forecast'']. sublist k t
      then weather_reply w
      else process_agriculture_query w t)"
    by (simp add: get_response_def is_greeting_def is_goodbye_def topic_patterns_def
        greetings_def list_ex_iff Let_def)
  show len: "length greetings = 3" by (simp add: greetings_def)
  have "random_index w mod 3 < length greetings" by (simp add: len)
  then show mem: "greetings ! (random_index w mod 3) \<in> set greetings" by (rule nth_mem)
  have "get_response w (ascii ''hi, how do I grow rice'') = (Inr (greetings ! (random_index w mod 3)), [])"
    using demo_greeting by (simp add: get_response_def Let_def len)
  with mem show "fst (get_response w (ascii ''hi, how do I grow rice'')) \<in> Inr ` set greetings" by simp
qed

theorem get_response_dispatch_witness:
  "get_response (demo_world []) (ascii ''bye, thanks for the help'') = (Inr farewell, [])"
  using get_response_dispatch [of "demo_world []" "(ascii ''bye, thanks for the help'')"] demo_farewell
  by (simp add: Let_def)

section \<open>The weather branch\<close>

lemma get_weather_no_send: "SendMessage p \<notin> set (snd (get_weather w))"
  by (auto simp: get_weather_def Let_def split: option.splits sum.splits)

lemma get_weather_unconfigured:
  "thingspeak_channel w = None \<or> thingspeak_channel w = Some [] \<Longrightarrow> get_weather w = (None, [])"
  by (auto simp: get_weather_def)

lemma get_weather_network_error:
  "\<forall>url. \<exists>e. http_get_json w url = Inl e \<Longrightarrow> fst (get_weather w) = None"
proof -
  assume a: "\<forall>url. \<exists>e. http_get_json w url = Inl e"
  show ?thesis
  proof (cases "thingspeak_channel w")
    case None
    then show ?thesis by (simp add: get_weather_def)
  next
    case (Some cid)
    from a obtain e where "http_get_json w (ascii ''https://api.thingspeak.com/channels/'' @ cid @ ascii ''/feeds.json?results=1'') = Inl e"
      by blast
    with Some show ?thesis by (simp add: get_weather_def Let_def)
  qed
qed

lemma get_weather_bad_feed:
  "\<forall>url. \<exists>j. http_get_json w url = Inr j \<and> (read_feed j = Inr None \<or> (\<exists>e. read_feed j = Inl e))
   \<Longrightarrow> fst (get_weather w) = None"
proof -
  assume a: "\<forall>url. \<exists>j. http_get_json w url = Inr j \<and> (read_feed j = Inr None \<or> (\<exists>e. read_feed j = Inl e))"
  show ?thesis
  proof (cases "thingspeak_channel w")
    case None
    then show ?thesis by (simp add: get_weather_def)
  next
    case (Some cid)
    from a obtain j where "http_get_json w (ascii ''https://api.thingspeak.com/channels/'' @ cid @ ascii ''/feeds.json?results=1'') = Inr j"
      "read_feed j = Inr None \<or> (\<exists>e. read_feed j = Inl e)"
      by blast
    with Some show ?thesis by (auto simp: get_weather_def Let_def)
  qed
qed

lemma read_feed_examples:
  "read_feed (JDict []) = Inr None \<and> read_feed (JDict [(ascii ''feeds'', JList [])]) = Inr None
   \<and> read_feed (JList []) = Inl AttributeError
   \<and> read_feed (JDict [(ascii ''feeds'', JList [JStr (ascii ''x'')])]) = Inl AttributeError"
  by (simp add: read_feed_def)

lemma weather_reply_failure:
  "fst (get_weather w) = None \<Longrightarrow> weather_reply w = (Inr weather_apology, snd (get_weather w))"
  by (cases "get_weather w") (simp add: weather_reply_def)

lemma get_response_weather:
  "\<not> is_greeting (clean_text (unicode_lower w) (Some (lower (unicode_lower w) msg))) \<Longrightarrow> \<not> is_goodbye (clean_text (unicode_lower w) (Some (lower (unicode_lower w) msg)))
   \<Longrightarrow> \<exists>k \<in> set [ascii ''weather'', ascii ''rain'', ascii ''season'', ascii ''climate'', ascii ''temperature'', ascii ''humidity'',
                   ascii ''pressure'', ascii ''forecast'']. sublist k (clean_text (unicode_lower w) (Some (lower (unicode_lower w) msg)))
   \<Longrightarrow> get_response w msg = weather_reply w"
  by (simp add: get_response_def topic_patterns_def list_ex_iff Let_def)

text \<open>
  C5. The weather fetch yields \<open>None\<close> when no channel id is configured, when the request
  raises, and when the feed is empty or malformed. Whenever it yields \<open>None\<close> on the
  weather branch, \<open>get_response\<close> returns the fixed apology and sends no message to the
  generation backend.
\<close>

theorem weather_failure_no_backend:
  "(thingspeak_channel w = None \<or> thingspeak_channel w = Some [] \<longrightarrow> get_weather w = (None, []))
   \<and> ((\<forall>url. \<exists>e. http_get_json w url = Inl e) \<longrightarrow> fst (get_weather w) = None)
   \<and> ((\<forall>url. \<exists>j. http_get_json w url = Inr j \<and> (read_feed j = Inr None \<or> (\<exists>e. read_feed j = Inl e)))
        \<longrightarrow> fst (get_weather w) = None)
   \<and> read_feed (JDict []) = Inr None \<and> read_feed (JDict [(ascii ''feeds'', JList [])]) = Inr None
   \<and> read_feed (JList []) = Inl AttributeError
   \<and> read_feed (JDict [(ascii ''feeds'', JList [JStr (ascii ''x'')])]) = Inl AttributeError
   \<and> (\<not> is_greeting (clean_text (unicode_lower w) (Some (lower (unicode_lower w) msg))) \<and> \<not> is_goodbye (clean_text (unicode_lower w) (Some (lower (unicode_lower w) msg)))
        \<and> (\<exists>k \<in> set [ascii ''weather'', ascii ''rain'', ascii ''season'', ascii ''climate'', ascii ''temperature'', ascii ''humidity'',
                        ascii ''pressure'', ascii ''forecast'']. sublist k (clean_text (unicode_lower w) (Some (lower (unicode_lower w) msg))))
        \<and> fst (get_weather w) = None
      \<longrightarrow> fst (get_response w msg) = Inr weather_apology
          \<and> (\<forall>p. SendMessage p \<notin> set (snd (get_response w msg))))"
proof (intro conjI impI)
  assume "thingspeak_channel w = None \<or> thingspeak_channel w = Some []"
  then show "get_weather w = (None, [])" by (rule get_weather_unconfigured)
next
  assume "\<forall>url. \<exists>e. http_get_json w url = Inl e"
  then show "fst (get_weather w) = None" by (rule get_weather_network_error)
next
  assume "\<forall>url. \<exists>j. http_get_json w url = Inr j \<and> (read_feed j = Inr None \<or> (\<exists>e. read_feed j = Inl e))"
  then show "fst (get_weather w) = None" by (rule get_weather_bad_feed)
next
  show "read_feed (JDict []) = Inr None" using read_feed_examples by simp
  show "read_feed (JDict [(ascii ''feeds'', JList [])]) = Inr None" using read_feed_examples by simp
  show "read_feed (JList []) = Inl AttributeError" using read_feed_examples by simp
  show "read_feed (JDict [(ascii ''feeds'', JList [JStr (ascii ''x'')])]) = Inl AttributeError"
    using read_feed_examples by simp
next
  assume a: "\<not> is_greeting (clean_text (unicode_lower w) (Some (lower (unicode_lower w) msg))) \<and> \<not> is_goodbye (clean_text (unicode_lower w) (Some (lower (unicode_lower w) msg)))
        \<and> (\<exists>k \<in> set [ascii ''weather'', ascii ''rain'', ascii ''season'', ascii ''climate'', ascii ''temperature'', ascii ''humidity'',
                        ascii ''pressure'', ascii ''forecast'']. sublist k (clean_text (unicode_lower w) (Some (lower (unicode_lower w) msg))))
        \<and> fst (get_weather w) = None"
  then have "get_response w msg = weather_reply w" by (simp add: get_response_weather)
  with a have r: "get_response w msg = (Inr weather_apology, snd (get_weather w))"
    by (simp add: weather_reply_failure)
  then show "fst (get_response w msg) = Inr weather_apology" by simp
  from r show "\<forall>p. SendMessage p \<notin> set (snd (get_response w msg))"
    by (simp add: get_weather_no_send)
qed

lemma demo_rain:
  "\<not> is_greeting (clean_text ul (Some (lower ul (ascii ''will it rain''))))
   \<and> \<not> is_goodbye (clean_text ul (Some (lower ul (ascii ''will it rain''))))
   \<and> (\<exists>k \<in> set [ascii ''weather'', ascii ''rain'', ascii ''season'', ascii ''climate'', ascii ''temperature'', ascii ''humidity'',
                        ascii ''pressure'', ascii ''forecast'']. sublist k (clean_text ul (Some (lower ul (ascii ''will it rain'')))))"
  by code_simp

lemma demo_empty_feed:
  "thingspeak_channel (demo_world []\<lparr>thingspeak_channel := Some (ascii ''42''), http_get_json := empty_feed\<rparr>) = Some (ascii ''42'')
   \<and> (\<forall>url. \<exists>j. http_get_json (demo_world []\<lparr>thingspeak_channel := Some (ascii ''42''), http_get_json := empty_feed\<rparr>) url = Inr j
          \<and> (read_feed j = Inr None \<or> (\<exists>e. read_feed j = Inl e)))"
  by (simp add: demo_world_def empty_feed_def read_feed_def)

theorem weather_failure_no_backend_witness:
  "thingspeak_channel (demo_world []) = None
   \<and> (\<forall>url. \<exists>e. http_get_json (demo_world []) url = Inl e)
   \<and> fst (get_weather (demo_world [])) = None
   \<and> fst (get_response (demo_world []) (ascii ''will it rain'')) = Inr weather_apology
   \<and> (\<forall>p. SendMessage p \<notin> set (snd (get_response (demo_world []) (ascii ''will it rain''))))
   \<and> fst (get_weather (demo_world []\<lparr>thingspeak_channel := Some (ascii ''42''), http_get_json := empty_feed\<rparr>)) = None"
proof -
  have c: "thingspeak_channel (demo_world []) = None" by (simp add: demo_world_def)
  have n: "\<forall>url. \<exists>e. http_get_json (demo_world []) url = Inl e"
    by (simp add: demo_world_def no_network_def)
  note t = weather_failure_no_backend [of "demo_world []" "(ascii ''will it rain'')"]
  from t n have g: "fst (get_weather (demo_world [])) = None" by blast
  from t g demo_rain
  have r: "fst (get_response (demo_world []) (ascii ''will it rain'')) = Inr weather_apology
     \<and> (\<forall>p. SendMessage p \<notin> set (snd (get_response (demo_world []) (ascii ''will it rain''))))"
    by blast
  from weather_failure_no_backend [of "demo_world []\<lparr>thingspeak_channel := Some (ascii ''42''), http_get_json := empty_feed\<rparr>"]
    demo_empty_feed
  have "fst (get_weather (demo_world []\<lparr>thingspeak_channel := Some (ascii ''42''), http_get_json := empty_feed\<rparr>)) = None"
    by blast
  with c n g r show ?thesis by blast
qed

section \<open>Exceptions that leave get\_response\<close>

lemma search_total: "all_dicts kb \<Longrightarrow> \<exists>r. search ul kb query topic = Inr r"
proof -
  assume d: "all_dicts kb"
  show ?thesis
  proof (cases "case topic of None \<Rightarrow> None | Some t \<Rightarrow> if t = [] then None else map_of kb t")
    case None
    with d show ?thesis by (simp add: search_def search_all_dicts)
  next
    case (Some topic_data)
    then obtain t where "map_of kb t = Some topic_data"
      by (cases topic) (auto split: if_splits)
    then have "(t, topic_data) \<in> set kb" by (rule map_of_SomeD)
    with d have "is_dict topic_data" by (auto simp: all_dicts_def list_all_iff)
    then obtain its where "topic_data = JDict its" by (cases topic_data) simp_all
    with Some show ?thesis by (simp add: search_def)
  qed
qed

lemma process_agriculture_query_total:
  "all_dicts (knowledge w) \<Longrightarrow> \<exists>reply. fst (process_agriculture_query w text) = Inr reply"
proof -
  assume d: "all_dicts (knowledge w)"
  show ?thesis
  proof (cases "identify_topic text")
    case None
    then show ?thesis by (simp add: process_agriculture_query_def split_beta)
  next
    case (Some topic)
    from search_total [OF d] obtain r where "search (unicode_lower w) (knowledge w) text (Some topic) = Inr r" by blast
    with Some show ?thesis by (simp add: process_agriculture_query_def split_beta)
  qed
qed

lemma weather_reply_total: "\<exists>reply. fst (weather_reply w) = Inr reply"
  by (cases "get_weather w") (auto simp: weather_reply_def split_beta split: option.splits)

lemma get_response_cases:
  "get_response w msg = (Inr (greetings ! (random_index w mod length greetings)), [])
   \<or> get_response w msg = (Inr farewell, [])
   \<or> get_response w msg = weather_reply w
   \<or> get_response w msg = process_agriculture_query w (clean_text (unicode_lower w) (Some (lower (unicode_lower w) msg)))"
  by (simp add: get_response_def topic_patterns_def Let_def)

lemma load_knowledge_dicts:
  "all_dicts (load_knowledge Absent) \<and> all_dicts (load_knowledge Unreadable)
   \<and> all_dicts (load_knowledge (Parsed (JDict d)))"
  by (simp add: all_dicts_def get_default_knowledge_def get_default_crops_data_def)

text \<open>
  C8, as the claim states it, fails: with a crops file that parses to a JSON array the
  store holds a list under crops, \<open>topic_data.items()\<close> raises in \<open>search\<close>, and nothing in
  \<open>get_response\<close> catches the exception.
\<close>

theorem get_response_raises:
  "fst (get_response (demo_world (load_knowledge (Parsed (JList [])))) (ascii ''grow'')) = Inl AttributeError"
  by code_simp

text \<open>
  C8, amended. \<open>get_response\<close> returns a string whenever every topic of the knowledge
  store holds a dictionary, which is so for the built-in data and for a crops file that
  parses to a JSON object; the weather branch returns a string for every store, and an
  exception of the backend call is turned into the fixed apology.
\<close>

theorem get_response_returns_string:
  "(all_dicts (knowledge w) \<longrightarrow> (\<exists>reply. fst (get_response w msg) = Inr reply))
   \<and> (\<exists>reply. fst (weather_reply w) = Inr reply)
   \<and> (chat w = Some send \<and> (\<forall>prompt. \<exists>e. send prompt = Inl e)
        \<longrightarrow> fst (get_ai_response w user_input context) = backend_apology)
   \<and> all_dicts (load_knowledge Absent) \<and> all_dicts (load_knowledge Unreadable)
   \<and> all_dicts (load_knowledge (Parsed (JDict d)))"
proof (intro conjI impI)
  assume d: "all_dicts (knowledge w)"
  from get_response_cases [of w msg] process_agriculture_query_total [OF d] weather_reply_total [of w]
  show "\<exists>reply. fst (get_response w msg) = Inr reply"
    by (metis fst_conv)
next
  show "\<exists>reply. fst (weather_reply w) = Inr reply" by (rule weather_reply_total)
next
  assume a: "chat w = Some send \<and> (\<forall>prompt. \<exists>e. send prompt = Inl e)"
  then have "\<And>prompt. \<exists>e. send prompt = Inl e" by simp
  then have "\<And>prompt. (case send prompt of Inl e \<Rightarrow> (backend_apology, [SendMessage prompt])
                  | Inr text \<Rightarrow> (strip_fence text, [SendMessage prompt])) = (backend_apology, [SendMessage prompt])"
    by (metis sum.case(1))
  with a show "fst (get_ai_response w user_input context) = backend_apology"
    by (simp add: get_ai_response_def Let_def)
next
  show "all_dicts (load_knowledge Absent)" using load_knowledge_dicts by simp
  show "all_dicts (load_knowledge Unreadable)" using load_knowledge_dicts by simp
  show "all_dicts (load_knowledge (Parsed (JDict d)))" using load_knowledge_dicts by simp
qed

lemma demo_grow:
  "fst (get_response (demo_world (load_knowledge (Parsed (JDict [])))) (ascii ''grow'')) = Inr (ascii ''ok'')"
  by code_simp

lemma demo_failing_backend:
  "chat (demo_world []\<lparr>chat := Some failing_backend\<rparr>) = Some failing_backend
   \<and> (\<forall>prompt. \<exists>e. failing_backend prompt = Inl e)"
  by (simp add: failing_backend_def)

theorem get_response_returns_string_witness:
  "all_dicts (knowledge (demo_world (load_knowledge (Parsed (JDict [])))))
   \<and> fst (get_response (demo_world (load_knowledge (Parsed (JDict [])))) (ascii ''grow'')) = Inr (ascii ''ok'')
   \<and> (\<exists>reply. fst (get_response (demo_world (load_knowledge (Parsed (JDict [])))) (ascii ''grow'')) = Inr reply)
   \<and> fst (get_ai_response (demo_world []\<lparr>chat := Some failing_backend\<rparr>) (ascii ''grow'') None) = backend_apology"
proof -
  have d: "all_dicts (knowledge (demo_world (load_knowledge (Parsed (JDict [])))))"
    by (simp add: demo_world_def all_dicts_def)
  from get_response_returns_string [of "demo_world (load_knowledge (Parsed (JDict [])))" "(ascii ''grow'')"] d
  have e: "\<exists>reply. fst (get_response (demo_world (load_knowledge (Parsed (JDict [])))) (ascii ''grow'')) = Inr reply"
    by blast
  from get_response_returns_string [of "demo_world []\<lparr>chat := Some failing_backend\<rparr>" _ failing_backend "(ascii ''grow'')" None]
    demo_failing_backend
  have "fst (get_ai_response (demo_world []\<lparr>chat := Some failing_backend\<rparr>) (ascii ''grow'') None) = backend_apology"
    by blast
  with d e demo_grow show ?thesis by blast
qed

end
